theory Spec2Isabelle
  imports Main
begin

section \<open>Jigsaw puzzle: the piece model\<close>

text \<open>
  The program is \<^verbatim>\<open>src/main.py\<close>. Python integers are unbounded and are modelled as
  \<^typ>\<open>int\<close>. A pygame \<^verbatim>\<open>Rect\<close> is four integers; the source reads and writes it through
  \<^verbatim>\<open>x\<close>, \<^verbatim>\<open>y\<close>, \<^verbatim>\<open>width\<close>, \<^verbatim>\<open>height\<close>, \<^verbatim>\<open>topleft\<close> and \<^verbatim>\<open>collidepoint\<close>.
  A pygame \<^verbatim>\<open>Surface\<close> is kept as its size only: no claim is about pixels.

  pygame keeps the four fields of a \<^verbatim>\<open>Rect\<close> in 32-bit C integers and raises
  \<^verbatim>\<open>TypeError\<close> when it is given a coordinate that does not fit. The program hands
  pygame coordinates of its own making in \<^verbatim>\<open>get_rect(topleft=correct_pos)\<close>, where the
  caller of \<^verbatim>\<open>create_puzzle_pieces\<close> chooses \<^verbatim>\<open>start_pos\<close>; that check is modelled. The
  size of a surface is a C integer already, so the rectangles cut from the image fit;
  inside \<^verbatim>\<open>main\<close> the positions come from the 800 x 600 window and stay far inside the
  range.
\<close>

record Rect =
  rect_x :: int
  rect_y :: int
  rect_width :: int
  rect_height :: int

datatype surface = Surface (surf_width: nat) (surf_height: nat)

datatype error = ZeroDivisionError | ValueError | SDLError | TypeError

text \<open>\<open>c_int v\<close>: the integer fits a 32-bit signed C integer.\<close>

definition c_int :: "int \<Rightarrow> bool" where
  "c_int v = (- 2147483648 \<le> v \<and> v \<le> 2147483647)"

definition get_size :: "surface \<Rightarrow> int \<times> int" where
  "get_size s = (int (surf_width s), int (surf_height s))"

definition topleft :: "Rect \<Rightarrow> int \<times> int" where
  "topleft r = (rect_x r, rect_y r)"

text \<open>The assignment \<^verbatim>\<open>rect.topleft = pos\<close> moves the rectangle and keeps its size.\<close>

definition set_topleft :: "Rect \<Rightarrow> int \<times> int \<Rightarrow> Rect" where
  "set_topleft r pos = r\<lparr>rect_x := fst pos, rect_y := snd pos\<rparr>"

text \<open>
  \<^verbatim>\<open>Rect.collidepoint\<close>: a point is inside when it is on or after the left and top edges
  and strictly before the right and bottom edges.
\<close>

definition collidepoint :: "Rect \<Rightarrow> int \<times> int \<Rightarrow> bool" where
  "collidepoint r pos =
     (rect_x r \<le> fst pos \<and> fst pos < rect_x r + rect_width r \<and>
      rect_y r \<le> snd pos \<and> snd pos < rect_y r + rect_height r)"

text \<open>
  \<^verbatim>\<open>image.get_rect(topleft=pos)\<close>: a rectangle of the surface's size placed at \<open>pos\<close>;
  \<^verbatim>\<open>TypeError\<close> when a coordinate of \<open>pos\<close> does not fit a C integer.
\<close>

definition get_rect :: "surface \<Rightarrow> int \<times> int \<Rightarrow> error + Rect" where
  "get_rect s pos =
     (if c_int (fst pos) \<and> c_int (snd pos)
      then Inr \<lparr>rect_x = fst pos, rect_y = snd pos,
                rect_width = fst (get_size s), rect_height = snd (get_size s)\<rparr>
      else Inl TypeError)"

definition SNAP_DISTANCE :: int where
  "SNAP_DISTANCE = 20"

record PuzzlePiece =
  image_s :: surface
  correct_pos :: "int \<times> int"
  rect :: Rect
  moving :: bool

text \<open>\<^verbatim>\<open>PuzzlePiece.__init__\<close>; an exception of \<^verbatim>\<open>get_rect\<close> leaves no piece.\<close>

definition PuzzlePiece_init :: "surface \<Rightarrow> int \<times> int \<Rightarrow> error + PuzzlePiece" where
  "PuzzlePiece_init img cpos =
     (case get_rect img cpos of
        Inl e \<Rightarrow> Inl e
      | Inr r \<Rightarrow> Inr \<lparr>image_s = img, correct_pos = cpos, rect = r, moving = False\<rparr>)"

text \<open>
  \<^verbatim>\<open>PuzzlePiece.snap_to_place\<close> mutates the piece and returns a boolean: the model
  returns the boolean together with the piece after the call.
\<close>

definition snap_to_place :: "PuzzlePiece \<Rightarrow> bool \<times> PuzzlePiece" where
  "snap_to_place self =
     (let correct_x = fst (correct_pos self); correct_y = snd (correct_pos self);
          current_x = fst (topleft (rect self)); current_y = snd (topleft (rect self))
      in if \<bar>current_x - correct_x\<bar> < SNAP_DISTANCE \<and> \<bar>current_y - correct_y\<bar> < SNAP_DISTANCE
         then (True, self\<lparr>rect := set_topleft (rect self) (correct_pos self)\<rparr>)
         else (False, self))"

section \<open>The piece factory\<close>

text \<open>
  \<^verbatim>\<open>Surface.subsurface\<close> belongs to pygame, not to this program. Its contract, as pygame
  documents it: a rectangle that is not wholly inside the surface raises
  \<^verbatim>\<open>ValueError\<close>; otherwise the result is a surface of the rectangle's size. A negative
  size is refused by the underlying library. \<^verbatim>\<open>Surface.copy\<close> returns a surface of the
  same size.
\<close>

definition subsurface :: "surface \<Rightarrow> Rect \<Rightarrow> error + surface" where
  "subsurface surf r =
     (if rect_x r < 0 \<or> rect_y r < 0 \<or> rect_x r + rect_width r > fst (get_size surf) \<or>
         rect_y r + rect_height r > snd (get_size surf)
      then Inl ValueError
      else if rect_width r < 0 \<or> rect_height r < 0 then Inl SDLError
      else Inr (Surface (nat (rect_width r)) (nat (rect_height r))))"

definition copy_surface :: "surface \<Rightarrow> surface" where
  "copy_surface s = Surface (surf_width s) (surf_height s)"

text \<open>\<^verbatim>\<open>range(n)\<close>: the integers from 0 up to \<open>n - 1\<close>, none when \<open>n \<le> 0\<close>.\<close>

definition range_py :: "int \<Rightarrow> int list" where
  "range_py n = [0..n - 1]"

text \<open>
  The inner loop of \<^verbatim>\<open>create_puzzle_pieces\<close>, over the columns of one row. \<open>pieces\<close> is
  the list built so far; an exception of \<^verbatim>\<open>subsurface\<close> or of the constructor ends the
  loop.
\<close>

fun cols_loop ::
  "surface \<Rightarrow> int \<Rightarrow> int \<Rightarrow> int \<times> int \<Rightarrow> int \<Rightarrow> int list \<Rightarrow> PuzzlePiece list \<Rightarrow> error + PuzzlePiece list"
where
  "cols_loop img piece_width piece_height start_pos row [] pieces = Inr pieces"
| "cols_loop img piece_width piece_height start_pos row (col # cols) pieces =
     (case subsurface img \<lparr>rect_x = col * piece_width, rect_y = row * piece_height,
                            rect_width = piece_width, rect_height = piece_height\<rparr> of
        Inl e \<Rightarrow> Inl e
      | Inr sub \<Rightarrow>
          (let piece_image = copy_surface sub;
               correct_x = fst start_pos + col * piece_width;
               correct_y = snd start_pos + row * piece_height
           in case PuzzlePiece_init piece_image (correct_x, correct_y) of
                Inl e \<Rightarrow> Inl e
              | Inr piece \<Rightarrow>
                  cols_loop img piece_width piece_height start_pos row cols (pieces @ [piece])))"

text \<open>The outer loop, over the rows.\<close>

fun rows_loop ::
  "surface \<Rightarrow> int \<Rightarrow> int \<Rightarrow> int \<times> int \<Rightarrow> int \<Rightarrow> int list \<Rightarrow> PuzzlePiece list \<Rightarrow> error + PuzzlePiece list"
where
  "rows_loop img piece_width piece_height start_pos grid_cols [] pieces = Inr pieces"
| "rows_loop img piece_width piece_height start_pos grid_cols (row # rows) pieces =
     (case cols_loop img piece_width piece_height start_pos row (range_py grid_cols) pieces of
        Inl e \<Rightarrow> Inl e
      | Inr pieces' \<Rightarrow> rows_loop img piece_width piece_height start_pos grid_cols rows pieces')"

text \<open>
  \<^verbatim>\<open>create_puzzle_pieces\<close>. The two floor divisions come first, the one by \<open>grid_cols\<close>
  before the one by \<open>grid_rows\<close>; Python raises \<^verbatim>\<open>ZeroDivisionError\<close> on a zero divisor.
  Python's \<^verbatim>\<open>//\<close> on integers rounds towards minus infinity, as \<open>div\<close> on \<^typ>\<open>int\<close> does.
\<close>

definition create_puzzle_pieces ::
  "surface \<Rightarrow> int \<Rightarrow> int \<Rightarrow> int \<times> int \<Rightarrow> error + PuzzlePiece list"
where
  "create_puzzle_pieces img grid_rows grid_cols start_pos =
     (let image_width = fst (get_size img); image_height = snd (get_size img)
      in if grid_cols = 0 then Inl ZeroDivisionError
         else let piece_width = image_width div grid_cols
           in if grid_rows = 0 then Inl ZeroDivisionError
              else let piece_height = image_height div grid_rows
                in rows_loop img piece_width piece_height start_pos grid_cols
                     (range_py grid_rows) [])"

text \<open>
  Vocabulary for the factory's properties. \<open>cell_piece\<close> is the piece the loop body builds
  for one grid cell when nothing raises, \<open>grid_pieces\<close> the row-major list of all cells.
  \<open>cell_ok\<close> says that the cell's rectangle lies inside the image and that its target
  position fits C integers. \<open>target_rect\<close> is the region of a piece's size at its target
  position, and \<open>in_region lo hi\<close> the half-open pixel region from \<open>lo\<close> up to, and
  excluding, \<open>hi\<close>.
\<close>

definition cell_piece :: "int \<Rightarrow> int \<Rightarrow> int \<times> int \<Rightarrow> int \<Rightarrow> int \<Rightarrow> PuzzlePiece" where
  "cell_piece pw ph start_pos row col =
     \<lparr>image_s = Surface (nat pw) (nat ph),
      correct_pos = (fst start_pos + col * pw, snd start_pos + row * ph),
      rect = \<lparr>rect_x = fst start_pos + col * pw, rect_y = snd start_pos + row * ph,
               rect_width = int (nat pw), rect_height = int (nat ph)\<rparr>,
      moving = False\<rparr>"

definition cell_ok :: "surface \<Rightarrow> int \<Rightarrow> int \<Rightarrow> int \<times> int \<Rightarrow> int \<Rightarrow> int \<Rightarrow> bool" where
  "cell_ok img pw ph start_pos row col =
     (0 \<le> pw \<and> 0 \<le> ph \<and> 0 \<le> col * pw \<and> 0 \<le> row * ph \<and>
      col * pw + pw \<le> fst (get_size img) \<and> row * ph + ph \<le> snd (get_size img) \<and>
      c_int (fst start_pos + col * pw) \<and> c_int (snd start_pos + row * ph))"

definition grid_pieces :: "int \<Rightarrow> int \<Rightarrow> int \<times> int \<Rightarrow> int \<Rightarrow> int \<Rightarrow> PuzzlePiece list" where
  "grid_pieces pw ph start_pos grid_rows grid_cols =
     concat (map (\<lambda>row. map (cell_piece pw ph start_pos row) (range_py grid_cols))
                 (range_py grid_rows))"

definition target_rect :: "PuzzlePiece \<Rightarrow> Rect" where
  "target_rect p =
     \<lparr>rect_x = fst (correct_pos p), rect_y = snd (correct_pos p),
      rect_width = fst (get_size (image_s p)), rect_height = snd (get_size (image_s p))\<rparr>"

definition in_region :: "int \<times> int \<Rightarrow> int \<times> int \<Rightarrow> int \<times> int \<Rightarrow> bool" where
  "in_region lo hi pos = (fst lo \<le> fst pos \<and> fst pos < fst hi \<and> snd lo \<le> snd pos \<and> snd pos < snd hi)"

section \<open>The layout randomizer\<close>

text \<open>
  \<^verbatim>\<open>random.randint(a, b)\<close> returns some integer of the closed range from \<open>a\<close> to \<open>b\<close> and
  raises \<^verbatim>\<open>ValueError\<close> when the range is empty. The generator is modelled by the
  sequence \<open>rnd\<close> of its raw draws: draw number \<open>k\<close> is folded into the range, so every
  value of the range is the result for some draw, and the properties below hold for
  every sequence.
\<close>

definition randint :: "int \<Rightarrow> int \<Rightarrow> nat \<Rightarrow> error + int" where
  "randint a b raw = (if b < a then Inl ValueError else Inr (a + int raw mod (b - a + 1)))"

text \<open>
  \<^verbatim>\<open>shuffle_pieces\<close>: one \<^verbatim>\<open>randint\<close> for \<open>x\<close>, then one for \<open>y\<close>, for each piece in list
  order; \<open>k\<close> counts the draws made so far. The pieces of the list are distinct objects,
  as \<^verbatim>\<open>create_puzzle_pieces\<close> builds them. An exception ends the program (nothing
  catches it), so the model returns the error alone.
\<close>

fun shuffle_loop ::
  "(nat \<Rightarrow> nat) \<Rightarrow> nat \<Rightarrow> PuzzlePiece list \<Rightarrow> Rect \<Rightarrow> error + PuzzlePiece list"
where
  "shuffle_loop rnd k [] screen_rect = Inr []"
| "shuffle_loop rnd k (piece # rest) screen_rect =
     (case randint 0 (rect_width screen_rect - rect_width (rect piece)) (rnd k) of
        Inl e \<Rightarrow> Inl e
      | Inr new_x \<Rightarrow>
          (case randint 0 (rect_height screen_rect - rect_height (rect piece)) (rnd (k + 1)) of
             Inl e \<Rightarrow> Inl e
           | Inr new_y \<Rightarrow>
               (case shuffle_loop rnd (k + 2) rest screen_rect of
                  Inl e \<Rightarrow> Inl e
                | Inr rest' \<Rightarrow>
                    Inr (piece\<lparr>rect := (rect piece)\<lparr>rect_x := new_x, rect_y := new_y\<rparr>\<rparr> # rest'))))"

definition shuffle_pieces :: "(nat \<Rightarrow> nat) \<Rightarrow> PuzzlePiece list \<Rightarrow> Rect \<Rightarrow> error + PuzzlePiece list" where
  "shuffle_pieces rnd pieces screen_rect = shuffle_loop rnd 0 pieces screen_rect"

text \<open>A fixed sequence of draws and the 800 x 600 screen of the program, for examples.\<close>

definition example_draws :: "nat \<Rightarrow> nat" where
  "example_draws k = 37 * k + 11"

definition SCREEN_WIDTH :: int where
  "SCREEN_WIDTH = 800"

definition SCREEN_HEIGHT :: int where
  "SCREEN_HEIGHT = 600"

definition screen_rect_main :: Rect where
  "screen_rect_main = \<lparr>rect_x = 0, rect_y = 0, rect_width = SCREEN_WIDTH, rect_height = SCREEN_HEIGHT\<rparr>"

text \<open>\<open>fits screen_rect p\<close>: the piece is neither wider nor higher than the screen.\<close>

definition fits :: "Rect \<Rightarrow> PuzzlePiece \<Rightarrow> bool" where
  "fits screen_rect p =
     (rect_width (rect p) \<le> rect_width screen_rect \<and> rect_height (rect p) \<le> rect_height screen_rect)"

text \<open>
  \<open>placed screen_rect p p'\<close>: \<open>p'\<close> is \<open>p\<close> moved, and nothing else, to a top-left corner of
  the range \<open>[0, screen width - piece width] \<times> [0, screen height - piece height]\<close>, so that
  the whole piece lies in the rectangle of the screen's width and height whose top-left
  corner is (0, 0). The position of \<open>screen_rect\<close> itself is never read.
  \<open>inside outer inner\<close>: the rectangle \<open>inner\<close> lies within the rectangle \<open>outer\<close>.
\<close>

definition inside :: "Rect \<Rightarrow> Rect \<Rightarrow> bool" where
  "inside outer inner =
     (rect_x outer \<le> rect_x inner \<and> rect_x inner + rect_width inner \<le> rect_x outer + rect_width outer \<and>
      rect_y outer \<le> rect_y inner \<and> rect_y inner + rect_height inner \<le> rect_y outer + rect_height outer)"

definition placed :: "Rect \<Rightarrow> PuzzlePiece \<Rightarrow> PuzzlePiece \<Rightarrow> bool" where
  "placed screen_rect p p' =
     (0 \<le> rect_x (rect p') \<and> rect_x (rect p') \<le> rect_width screen_rect - rect_width (rect p) \<and>
      0 \<le> rect_y (rect p') \<and> rect_y (rect p') \<le> rect_height screen_rect - rect_height (rect p) \<and>
      rect_x (rect p') + rect_width (rect p') \<le> rect_width screen_rect \<and>
      rect_y (rect p') + rect_height (rect p') \<le> rect_height screen_rect \<and>
      p' = p\<lparr>rect := (rect p)\<lparr>rect_x := rect_x (rect p'), rect_y := rect_y (rect p')\<rparr>\<rparr>)"

section \<open>The drag controller\<close>

text \<open>
  The pieces are objects: the list \<^verbatim>\<open>pieces\<close> and the variable \<^verbatim>\<open>selected_piece\<close> of
  \<^verbatim>\<open>main\<close> hold references to them, and a piece changed through one reference is
  changed for the other. The model keeps a store \<open>heap\<close> from references to pieces; the
  render list and the selection hold references. \<^verbatim>\<open>PuzzlePiece\<close> defines no equality, so
  \<^verbatim>\<open>pieces.remove(piece)\<close> removes the first occurrence of that very object.
\<close>

type_synonym ref = nat

record session =
  heap :: "ref \<Rightarrow> PuzzlePiece"
  pieces :: "ref list"
  selected_piece :: "ref option"
  offset_x :: int
  offset_y :: int
  running :: bool

text \<open>
  The events the loop of \<^verbatim>\<open>main\<close> tells apart, with the attributes it reads: the button
  and the position of a press or release, the position of a motion.
\<close>

datatype event =
    QUIT
  | MOUSEBUTTONDOWN int "int \<times> int"
  | MOUSEMOTION "int \<times> int"
  | MOUSEBUTTONUP int "int \<times> int"
  | OTHER_EVENT

text \<open>
  The state in which \<^verbatim>\<open>main\<close> enters its loop, for the list of pieces that
  \<^verbatim>\<open>shuffle_pieces\<close> has scattered: piece number \<open>r\<close> is stored under the reference \<open>r\<close>.
\<close>

definition start_session :: "PuzzlePiece list \<Rightarrow> session" where
  "start_session ps =
     \<lparr>heap = (\<lambda>r. ps ! r), pieces = [0..<length ps], selected_piece = None,
      offset_x = 0, offset_y = 0, running = True\<rparr>"

text \<open>
  The search \<^verbatim>\<open>for piece in reversed(pieces): if piece.rect.collidepoint(pos): ... break\<close>,
  over the list it is given: the first reference whose piece contains the point.
\<close>

fun hit_loop :: "(ref \<Rightarrow> PuzzlePiece) \<Rightarrow> ref list \<Rightarrow> int \<times> int \<Rightarrow> ref option" where
  "hit_loop h [] p = None"
| "hit_loop h (piece # rest) p =
     (if collidepoint (rect (h piece)) p then Some piece else hit_loop h rest p)"

text \<open>The body of the branch for a press of button 1.\<close>

definition on_mouse_button_down :: "session \<Rightarrow> int \<times> int \<Rightarrow> session" where
  "on_mouse_button_down s p =
     (case hit_loop (heap s) (rev (pieces s)) p of
        None \<Rightarrow> s
      | Some piece \<Rightarrow>
          s\<lparr>selected_piece := Some piece,
            offset_x := fst p - rect_x (rect (heap s piece)),
            offset_y := snd p - rect_y (rect (heap s piece)),
            heap := (heap s)(piece := (heap s piece)\<lparr>moving := True\<rparr>),
            pieces := remove1 piece (pieces s) @ [piece]\<rparr>)"

text \<open>The body of the branch for a motion.\<close>

definition on_mouse_motion :: "session \<Rightarrow> int \<times> int \<Rightarrow> session" where
  "on_mouse_motion s p =
     (case selected_piece s of
        None \<Rightarrow> s
      | Some piece \<Rightarrow>
          if moving (heap s piece)
          then let new_pos = (fst p - offset_x s, snd p - offset_y s)
               in s\<lparr>heap := (heap s)(piece := (heap s piece)\<lparr>rect := set_topleft (rect (heap s piece)) new_pos\<rparr>)\<rparr>
          else s)"

text \<open>The body of the branch for a release of button 1; the result of the snap is dropped.\<close>

definition on_mouse_button_up :: "session \<Rightarrow> session" where
  "on_mouse_button_up s =
     (case selected_piece s of
        None \<Rightarrow> s
      | Some piece \<Rightarrow>
          s\<lparr>heap := (heap s)(piece := snd (snap_to_place ((heap s piece)\<lparr>moving := False\<rparr>))),
            selected_piece := None\<rparr>)"

text \<open>One turn of \<^verbatim>\<open>for event in pygame.event.get()\<close>: the chain of \<^verbatim>\<open>if\<close> and \<^verbatim>\<open>elif\<close>.\<close>

fun handle_event :: "session \<Rightarrow> event \<Rightarrow> session" where
  "handle_event s QUIT = s\<lparr>running := False\<rparr>"
| "handle_event s (MOUSEBUTTONDOWN b p) = (if b = 1 then on_mouse_button_down s p else s)"
| "handle_event s (MOUSEMOTION p) = on_mouse_motion s p"
| "handle_event s (MOUSEBUTTONUP b p) = (if b = 1 then on_mouse_button_up s else s)"
| "handle_event s OTHER_EVENT = s"

text \<open>
  The events of a list, handled in the order of their arrival. The frames of the outer
  loop only group the events: drawing changes no state, and \<open>running\<close> is read between
  frames, so the events that follow a \<^verbatim>\<open>QUIT\<close> in its frame are still handled.
\<close>

definition run_events :: "session \<Rightarrow> event list \<Rightarrow> session" where
  "run_events s evs = foldl handle_event s evs"

text \<open>
  The states the claims speak of. \<open>idle\<close>: no piece is selected. \<open>dragging s r\<close>: the piece
  \<open>r\<close> is selected. \<open>initial\<close>: a state in which the loop may start, with no selection,
  no piece being dragged and no reference twice in the render list. \<open>dragged s\<close> lists
  the pieces of the render list whose flag \<open>moving\<close> is set.
\<close>

definition idle :: "session \<Rightarrow> bool" where
  "idle s = (selected_piece s = None)"

definition dragging :: "session \<Rightarrow> ref \<Rightarrow> bool" where
  "dragging s r = (selected_piece s = Some r)"

definition dragged :: "session \<Rightarrow> ref list" where
  "dragged s = filter (\<lambda>r. moving (heap s r)) (pieces s)"

definition initial :: "session \<Rightarrow> bool" where
  "initial s = (selected_piece s = None \<and> dragged s = [] \<and> distinct (pieces s))"

text \<open>
  \<open>topmost s p r\<close>: of the pieces whose rectangle contains \<open>p\<close>, \<open>r\<close> is the one drawn
  last, that is the first one in reverse draw order.
\<close>

definition topmost :: "session \<Rightarrow> int \<times> int \<Rightarrow> ref \<Rightarrow> bool" where
  "topmost s p r =
     (\<exists>i < length (pieces s). pieces s ! i = r \<and> collidepoint (rect (heap s r)) p \<and>
        (\<forall>j. i < j \<and> j < length (pieces s) \<longrightarrow> \<not> collidepoint (rect (heap s (pieces s ! j))) p))"

text \<open>
  \<open>selected_inv\<close>: the selected piece has its flag set.
\<close>

definition selected_inv :: "session \<Rightarrow> bool" where
  "selected_inv s = (case selected_piece s of None \<Rightarrow> True | Some r \<Rightarrow> moving (heap s r))"

text \<open>
  A sequence of pointer events, as a pointer device delivers it: the pointer is at one
  place at a time, a motion takes it to a new place, and a press or a release reports
  the place where the pointer is, the place of the last motion. \<open>pointer_step cur ev\<close>
  says that the event \<open>ev\<close> can follow when the pointer is at \<open>cur\<close>, \<open>pointer_next\<close> gives
  the place of the pointer after the event, \<open>pointer_run cur evs\<close> says that the whole
  list is such a sequence, starting with the pointer at \<open>cur\<close>, and \<open>pointer_after\<close> gives
  the place of the pointer at its end. The place at the start is arbitrary, so the first
  press may be anywhere. \<open>is_release\<close>: the event is a release of button 1.
\<close>

definition pointer_step :: "int \<times> int \<Rightarrow> event \<Rightarrow> bool" where
  "pointer_step cur ev =
     (case ev of MOUSEBUTTONDOWN b p \<Rightarrow> p = cur | MOUSEBUTTONUP b p \<Rightarrow> p = cur | _ \<Rightarrow> True)"

definition pointer_next :: "int \<times> int \<Rightarrow> event \<Rightarrow> int \<times> int" where
  "pointer_next cur ev = (case ev of MOUSEMOTION p \<Rightarrow> p | _ \<Rightarrow> cur)"

fun pointer_run :: "int \<times> int \<Rightarrow> event list \<Rightarrow> bool" where
  "pointer_run cur [] = True"
| "pointer_run cur (ev # evs) = (pointer_step cur ev \<and> pointer_run (pointer_next cur ev) evs)"




text \<open>
  An example session: the image of 20 x 10 cut into one row of two pieces at (50, 50),
  scattered with the example draws to (11, 48) and (85, 122).
\<close>

definition two_pieces :: "PuzzlePiece list" where
  "two_pieces =
     [\<lparr>image_s = Surface 10 10, correct_pos = (50, 50),
       rect = \<lparr>rect_x = 11, rect_y = 48, rect_width = 10, rect_height = 10\<rparr>, moving = False\<rparr>,
      \<lparr>image_s = Surface 10 10, correct_pos = (60, 50),
       rect = \<lparr>rect_x = 85, rect_y = 122, rect_width = 10, rect_height = 10\<rparr>, moving = False\<rparr>]"

section \<open>Snapping\<close>

lemma snap_to_place_near:
  "\<bar>rect_x (rect p) - fst (correct_pos p)\<bar> < 20 \<Longrightarrow> \<bar>rect_y (rect p) - snd (correct_pos p)\<bar> < 20 \<Longrightarrow>
   snap_to_place p = (True, p\<lparr>rect := set_topleft (rect p) (correct_pos p)\<rparr>)"
  by (simp add: snap_to_place_def SNAP_DISTANCE_def topleft_def)

lemma snap_to_place_far:
  "\<not> (\<bar>rect_x (rect p) - fst (correct_pos p)\<bar> < 20 \<and> \<bar>rect_y (rect p) - snd (correct_pos p)\<bar> < 20) \<Longrightarrow>
   snap_to_place p = (False, p)"
  by (simp add: snap_to_place_def SNAP_DISTANCE_def topleft_def)

lemma topleft_set_topleft: "topleft (set_topleft r pos) = pos"
  by (simp add: topleft_def set_topleft_def)

text \<open>The two release scenarios of the specification, tolerance 20 and target (50, 50).\<close>

lemma snap_scenario_near:
  "snap_to_place \<lparr>image_s = Surface 10 10, correct_pos = (50, 50),
       rect = \<lparr>rect_x = 48, rect_y = 51, rect_width = 10, rect_height = 10\<rparr>, moving = False\<rparr>
   = (True, \<lparr>image_s = Surface 10 10, correct_pos = (50, 50),
       rect = \<lparr>rect_x = 50, rect_y = 50, rect_width = 10, rect_height = 10\<rparr>, moving = False\<rparr>)"
  by (simp add: snap_to_place_def SNAP_DISTANCE_def topleft_def set_topleft_def)

lemma snap_scenario_far:
  "snap_to_place \<lparr>image_s = Surface 10 10, correct_pos = (50, 50),
       rect = \<lparr>rect_x = 80, rect_y = 80, rect_width = 10, rect_height = 10\<rparr>, moving = False\<rparr>
   = (False, \<lparr>image_s = Surface 10 10, correct_pos = (50, 50),
       rect = \<lparr>rect_x = 80, rect_y = 80, rect_width = 10, rect_height = 10\<rparr>, moving = False\<rparr>)"
  by (simp add: snap_to_place_def SNAP_DISTANCE_def topleft_def)

text \<open>
  Claim C1. For every piece, \<^verbatim>\<open>snap_to_place\<close> returns true exactly when the x delta
  and the y delta between the piece's current top-left corner and its target position
  both have absolute value strictly below the tolerance, which is 20. When it returns
  true, the top-left corner afterwards is the target position and nothing else of the
  piece has changed; when it returns false, the piece is left as it was.
\<close>

theorem snap_to_place_spec:
  "SNAP_DISTANCE = 20 \<and>
   fst (snap_to_place p) =
     (\<bar>fst (topleft (rect p)) - fst (correct_pos p)\<bar> < 20 \<and>
      \<bar>snd (topleft (rect p)) - snd (correct_pos p)\<bar> < 20) \<and>
   snd (snap_to_place p) =
     (if fst (snap_to_place p) then p\<lparr>rect := set_topleft (rect p) (correct_pos p)\<rparr> else p) \<and>
   topleft (rect (snd (snap_to_place p))) =
     (if fst (snap_to_place p) then correct_pos p else topleft (rect p))"
  by (simp add: snap_to_place_def SNAP_DISTANCE_def Let_def topleft_set_topleft)

theorem snap_to_place_spec_witness:
  "fst (snap_to_place \<lparr>image_s = Surface 10 10, correct_pos = (50, 50),
       rect = \<lparr>rect_x = 48, rect_y = 51, rect_width = 10, rect_height = 10\<rparr>, moving = False\<rparr>)
   \<and> topleft (rect (snd (snap_to_place \<lparr>image_s = Surface 10 10, correct_pos = (50, 50),
       rect = \<lparr>rect_x = 48, rect_y = 51, rect_width = 10, rect_height = 10\<rparr>, moving = False\<rparr>)))
     = (50, 50)"
  using snap_to_place_spec [of "\<lparr>image_s = Surface 10 10, correct_pos = (50, 50),
       rect = \<lparr>rect_x = 48, rect_y = 51, rect_width = 10, rect_height = 10\<rparr>, moving = False\<rparr>"]
  by (simp add: snap_to_place_def SNAP_DISTANCE_def topleft_def set_topleft_def)

text \<open>
  Claim C9. Calling \<^verbatim>\<open>snap_to_place\<close> twice in a row, with nothing moving the piece in
  between, returns the same boolean both times, and the second call leaves the piece
  (in particular its position) as the first call left it.
\<close>

theorem snap_to_place_idempotent:
  "fst (snap_to_place (snd (snap_to_place p))) = fst (snap_to_place p) \<and>
   snd (snap_to_place (snd (snap_to_place p))) = snd (snap_to_place p) \<and>
   topleft (rect (snd (snap_to_place (snd (snap_to_place p))))) =
     topleft (rect (snd (snap_to_place p)))"
  by (simp add: snap_to_place_def SNAP_DISTANCE_def Let_def topleft_def set_topleft_def)

theorem snap_to_place_idempotent_witness:
  "fst (snap_to_place (snd (snap_to_place \<lparr>image_s = Surface 10 10, correct_pos = (50, 50),
       rect = \<lparr>rect_x = 48, rect_y = 51, rect_width = 10, rect_height = 10\<rparr>, moving = False\<rparr>)))
   \<and> rect_x (rect (snd (snap_to_place (snd (snap_to_place \<lparr>image_s = Surface 10 10,
       correct_pos = (50, 50),
       rect = \<lparr>rect_x = 48, rect_y = 51, rect_width = 10, rect_height = 10\<rparr>, moving = False\<rparr>))))) = 50"
  using snap_to_place_idempotent [of "\<lparr>image_s = Surface 10 10, correct_pos = (50, 50),
       rect = \<lparr>rect_x = 48, rect_y = 51, rect_width = 10, rect_height = 10\<rparr>, moving = False\<rparr>"]
  by (simp add: snap_to_place_def SNAP_DISTANCE_def topleft_def set_topleft_def)

section \<open>The grid of pieces\<close>

lemma subsurface_cell:
  "cell_ok img pw ph start_pos row col \<Longrightarrow>
   subsurface img \<lparr>rect_x = col * pw, rect_y = row * ph, rect_width = pw, rect_height = ph\<rparr>
     = Inr (Surface (nat pw) (nat ph))"
  by (simp add: subsurface_def cell_ok_def)

lemma PuzzlePiece_init_cell:
  "cell_ok img pw ph start_pos row col \<Longrightarrow>
   PuzzlePiece_init (copy_surface (Surface (nat pw) (nat ph)))
       (fst start_pos + col * pw, snd start_pos + row * ph)
     = Inr (cell_piece pw ph start_pos row col)"
  by (simp add: PuzzlePiece_init_def get_rect_def get_size_def copy_surface_def cell_piece_def
      cell_ok_def)

lemma cols_loop_ok:
  "\<forall>col \<in> set cs. cell_ok img pw ph start_pos row col \<Longrightarrow>
   cols_loop img pw ph start_pos row cs acc = Inr (acc @ map (cell_piece pw ph start_pos row) cs)"
proof (induction cs arbitrary: acc)
  case Nil
  then show ?case by simp
next
  case (Cons c cs)
  from Cons.prems have ok: "cell_ok img pw ph start_pos row c"
    and rest: "\<forall>col \<in> set cs. cell_ok img pw ph start_pos row col" by simp_all
  have "cols_loop img pw ph start_pos row (c # cs) acc =
          cols_loop img pw ph start_pos row cs (acc @ [cell_piece pw ph start_pos row c])"
    by (simp add: subsurface_cell [OF ok] PuzzlePiece_init_cell [OF ok])
  also have "\<dots> = Inr ((acc @ [cell_piece pw ph start_pos row c]) @
                        map (cell_piece pw ph start_pos row) cs)"
    using rest by (rule Cons.IH)
  finally show ?case by simp
qed

lemma rows_loop_ok:
  "\<forall>row \<in> set rs. \<forall>col \<in> set (range_py grid_cols). cell_ok img pw ph start_pos row col \<Longrightarrow>
   rows_loop img pw ph start_pos grid_cols rs acc =
     Inr (acc @ concat (map (\<lambda>row. map (cell_piece pw ph start_pos row) (range_py grid_cols)) rs))"
  by (induction rs arbitrary: acc) (simp_all add: cols_loop_ok)

lemma grid_cell_ok:
  assumes "1 \<le> n" "0 \<le> k" "k < n" "0 \<le> (W::int)"
  shows "0 \<le> W div n \<and> 0 \<le> k * (W div n) \<and> k * (W div n) + W div n \<le> W"
proof -
  have p: "0 \<le> W div n" using assms by (simp add: pos_imp_zdiv_nonneg_iff)
  have "k * (W div n) + W div n = (k + 1) * (W div n)" by (simp add: algebra_simps)
  also have "\<dots> \<le> n * (W div n)" using assms p by (intro mult_right_mono) auto
  also have "\<dots> \<le> W"
  proof -
    have "n * (W div n) + W mod n = W" by simp
    moreover have "0 \<le> W mod n" using assms by simp
    ultimately show ?thesis by linarith
  qed
  finally show ?thesis using p assms by simp
qed

lemma set_range_py: "set (range_py n) = {0..n - 1}"
  by (simp add: range_py_def)

lemma c_int_between:
  assumes "c_int a" and "c_int (a + (n - 1) * w)" and "0 \<le> w" and "0 \<le> k" and "k < n"
  shows "c_int (a + k * w)"
proof -
  have "0 \<le> k * w" using assms(3,4) by simp
  moreover have "k * w \<le> (n - 1) * w" using assms(3,5) by (intro mult_right_mono) simp_all
  ultimately show ?thesis using assms(1,2) by (simp add: c_int_def)
qed

lemma create_puzzle_pieces_grid:
  assumes "1 \<le> grid_rows" "1 \<le> grid_cols"
    and "c_int (fst start_pos)"
    and "c_int (fst start_pos + (grid_cols - 1) * (fst (get_size img) div grid_cols))"
    and "c_int (snd start_pos)"
    and "c_int (snd start_pos + (grid_rows - 1) * (snd (get_size img) div grid_rows))"
  shows "create_puzzle_pieces img grid_rows grid_cols start_pos =
           Inr (grid_pieces (fst (get_size img) div grid_cols) (snd (get_size img) div grid_rows)
                  start_pos grid_rows grid_cols)"
proof -
  let ?pw = "fst (get_size img) div grid_cols" and ?ph = "snd (get_size img) div grid_rows"
  have W: "0 \<le> fst (get_size img)" and H: "0 \<le> snd (get_size img)"
    by (simp_all add: get_size_def)
  have "cell_ok img ?pw ?ph start_pos row col"
    if "row \<in> set (range_py grid_rows)" "col \<in> set (range_py grid_cols)" for row col
  proof -
    from that have r: "0 \<le> row" "row < grid_rows" and c: "0 \<le> col" "col < grid_cols"
      by (simp_all add: set_range_py)
    note gc = grid_cell_ok [OF assms(2) c W] and gr = grid_cell_ok [OF assms(1) r H]
    have "c_int (fst start_pos + col * ?pw)"
      using assms(3,4) _ c by (rule c_int_between) (simp add: gc)
    moreover have "c_int (snd start_pos + row * ?ph)"
      using assms(5,6) _ r by (rule c_int_between) (simp add: gr)
    ultimately show ?thesis
      using gc gr by (simp add: cell_ok_def)
  qed
  then have "rows_loop img ?pw ?ph start_pos grid_cols (range_py grid_rows) [] =
               Inr (grid_pieces ?pw ?ph start_pos grid_rows grid_cols)"
    by (simp add: rows_loop_ok grid_pieces_def)
  then show ?thesis
    using assms by (simp add: create_puzzle_pieces_def Let_def)
qed

lemma length_range_py: "length (range_py n) = nat n"
  by (simp add: range_py_def)

lemma nth_range_py: "k < nat n \<Longrightarrow> range_py n ! k = int k"
  by (simp add: range_py_def)

lemma length_concat_rows:
  "\<forall>xs \<in> set xss. length xs = n \<Longrightarrow> length (concat xss) = length xss * n"
  by (induction xss) simp_all

lemma nth_concat_rows:
  "\<forall>xs \<in> set xss. length xs = n \<Longrightarrow> i < length xss \<Longrightarrow> j < n \<Longrightarrow>
   concat xss ! (i * n + j) = xss ! i ! j"
proof (induction xss arbitrary: i)
  case Nil
  then show ?case by simp
next
  case (Cons xs xss)
  show ?case
  proof (cases i)
    case 0
    with Cons.prems show ?thesis by (simp add: nth_append)
  next
    case (Suc k)
    with Cons.prems have "concat xss ! (k * n + j) = xss ! k ! j"
      by (intro Cons.IH) simp_all
    with Suc Cons.prems show ?thesis by (simp add: nth_append)
  qed
qed

lemma length_grid_pieces:
  "length (grid_pieces pw ph start_pos grid_rows grid_cols) = nat grid_rows * nat grid_cols"
  unfolding grid_pieces_def
  by (subst length_concat_rows [where n = "nat grid_cols"]) (auto simp: length_range_py)

lemma nth_grid_pieces:
  assumes "r < nat grid_rows" "c < nat grid_cols"
  shows "grid_pieces pw ph start_pos grid_rows grid_cols ! (r * nat grid_cols + c) =
           cell_piece pw ph start_pos (int r) (int c)"
  unfolding grid_pieces_def
  using assms
  by (subst nth_concat_rows [where n = "nat grid_cols"])
     (auto simp: length_range_py nth_range_py)

lemma div_cell_iff:
  fixes d w c :: int
  assumes "0 < w"
  shows "(c * w \<le> d \<and> d < c * w + w) \<longleftrightarrow> d div w = c"
proof
  assume "c * w \<le> d \<and> d < c * w + w"
  then have "d = c * w + (d - c * w)" "0 \<le> d - c * w" "d - c * w < w" by simp_all
  then show "d div w = c"
    by (metis add.commute div_mult_self3 div_pos_pos_trivial assms less_irrefl add_0)
next
  assume e: "d div w = c"
  have "w * (d div w) + d mod w = d" by simp
  moreover have "0 \<le> d mod w" "d mod w < w" using assms by simp_all
  ultimately show "c * w \<le> d \<and> d < c * w + w" using e
    by (simp add: mult.commute)
qed

lemma div_less_cells:
  fixes d w n :: int
  assumes "0 < w"
  shows "d div w < n \<longleftrightarrow> d < n * w"
proof -
  have "(d + (- n) * w) div w = (- n) + d div w"
    using assms by (intro div_mult_self1) simp
  then have "(d - n * w) div w = d div w - n" by simp
  moreover have "((d - n * w) div w < 0) = (d - n * w < 0)"
    using assms by (rule pos_imp_zdiv_neg_iff)
  ultimately show ?thesis by simp
qed

lemma collide_cell:
  assumes "0 < pw" "0 < ph"
  shows "collidepoint (target_rect (cell_piece pw ph start_pos row col)) pos \<longleftrightarrow>
           (fst pos - fst start_pos) div pw = col \<and> (snd pos - snd start_pos) div ph = row"
proof -
  have "collidepoint (target_rect (cell_piece pw ph start_pos row col)) pos \<longleftrightarrow>
          (col * pw \<le> fst pos - fst start_pos \<and> fst pos - fst start_pos < col * pw + pw) \<and>
          (row * ph \<le> snd pos - snd start_pos \<and> snd pos - snd start_pos < row * ph + ph)"
    using assms
    by (auto simp: collidepoint_def target_rect_def cell_piece_def get_size_def)
  then show ?thesis
    by (simp only: div_cell_iff [OF assms(1)] div_cell_iff [OF assms(2)])
qed

lemma index_split:
  fixes i R C :: nat
  assumes "i < R * C"
  shows "i div C < R \<and> i mod C < C \<and> i = (i div C) * C + i mod C"
proof -
  from assms have "0 < C" by (cases C) simp_all
  then show ?thesis using assms by (simp add: less_mult_imp_div_less)
qed

lemma grid_pieces_tiling:
  assumes "1 \<le> grid_rows" "1 \<le> grid_cols" "0 < pw" "0 < ph"
    and "in_region start_pos (fst start_pos + grid_cols * pw, snd start_pos + grid_rows * ph) pos"
  shows "\<exists>!i. i < length (grid_pieces pw ph start_pos grid_rows grid_cols) \<and>
            collidepoint (target_rect (grid_pieces pw ph start_pos grid_rows grid_cols ! i)) pos"
proof -
  let ?ps = "grid_pieces pw ph start_pos grid_rows grid_cols"
  let ?dx = "fst pos - fst start_pos" and ?dy = "snd pos - snd start_pos"
  let ?C = "nat grid_cols" and ?R = "nat grid_rows"
  have dx: "0 \<le> ?dx" "?dx < grid_cols * pw" and dy: "0 \<le> ?dy" "?dy < grid_rows * ph"
    using assms(5) by (simp_all add: in_region_def)
  have c: "0 \<le> ?dx div pw" "?dx div pw < grid_cols"
    using dx assms(3) by (simp_all add: pos_imp_zdiv_nonneg_iff div_less_cells)
  have r: "0 \<le> ?dy div ph" "?dy div ph < grid_rows"
    using dy assms(4) by (simp_all add: pos_imp_zdiv_nonneg_iff div_less_cells)
  let ?c = "nat (?dx div pw)" and ?r = "nat (?dy div ph)"
  have cr: "?c < ?C" "?r < ?R" using c r by simp_all
  have len: "length ?ps = ?R * ?C" by (simp add: length_grid_pieces)
  have cell: "collidepoint (target_rect (?ps ! i)) pos \<longleftrightarrow> i mod ?C = ?c \<and> i div ?C = ?r"
    if "i < ?R * ?C" for i
  proof -
    from index_split [OF that] have s: "i div ?C < ?R" "i mod ?C < ?C" "i = (i div ?C) * ?C + i mod ?C"
      by simp_all
    have "?ps ! i = ?ps ! ((i div ?C) * ?C + i mod ?C)" using s(3) by simp
    also have "\<dots> = cell_piece pw ph start_pos (int (i div ?C)) (int (i mod ?C))"
      using s(1,2) by (rule nth_grid_pieces)
    finally have "collidepoint (target_rect (?ps ! i)) pos \<longleftrightarrow>
                    ?dx div pw = int (i mod ?C) \<and> ?dy div ph = int (i div ?C)"
      by (simp only: collide_cell [OF assms(3,4)])
    then show ?thesis using c r by auto
  qed
  show ?thesis
  proof (rule ex1I [where a = "?r * ?C + ?c"])
    have lt: "?r * ?C + ?c < ?R * ?C"
    proof -
      have "?r * ?C + ?c < ?r * ?C + ?C" using cr by simp
      also have "\<dots> = (Suc ?r) * ?C" by simp
      also have "\<dots> \<le> ?R * ?C"
      proof (rule mult_le_mono1)
        from cr(2) show "Suc ?r \<le> ?R" by (rule Suc_leI)
      qed
      finally show ?thesis .
    qed
    moreover have "(?r * ?C + ?c) mod ?C = ?c" "(?r * ?C + ?c) div ?C = ?r"
      using cr by simp_all
    ultimately show "?r * ?C + ?c < length ?ps \<and> collidepoint (target_rect (?ps ! (?r * ?C + ?c))) pos"
      using cell [OF lt] len by simp
  next
    fix i
    assume a: "i < length ?ps \<and> collidepoint (target_rect (?ps ! i)) pos"
    then have "i < ?R * ?C" using len by simp
    from cell [OF this] a have "i mod ?C = ?c" "i div ?C = ?r" by simp_all
    then show "i = ?r * ?C + ?c"
      by (metis div_mult_mod_eq)
  qed
qed

lemma grid_pieces_inside:
  assumes "1 \<le> grid_rows" "1 \<le> grid_cols" "0 < pw" "0 < ph"
    and "i < length (grid_pieces pw ph start_pos grid_rows grid_cols)"
    and "collidepoint (target_rect (grid_pieces pw ph start_pos grid_rows grid_cols ! i)) pos"
  shows "in_region start_pos (fst start_pos + grid_cols * pw, snd start_pos + grid_rows * ph) pos"
proof -
  let ?ps = "grid_pieces pw ph start_pos grid_rows grid_cols"
  let ?dx = "fst pos - fst start_pos" and ?dy = "snd pos - snd start_pos"
  let ?C = "nat grid_cols" and ?R = "nat grid_rows"
  have lt: "i < ?R * ?C" using assms(5) by (simp add: length_grid_pieces)
  from index_split [OF lt] have s: "i div ?C < ?R" "i mod ?C < ?C" "i = (i div ?C) * ?C + i mod ?C"
    by simp_all
  have "?ps ! i = ?ps ! ((i div ?C) * ?C + i mod ?C)" using s(3) by simp
  also have "\<dots> = cell_piece pw ph start_pos (int (i div ?C)) (int (i mod ?C))"
    using s(1,2) by (rule nth_grid_pieces)
  finally have e: "?dx div pw = int (i mod ?C)" "?dy div ph = int (i div ?C)"
    using assms(6) by (simp_all only: collide_cell [OF assms(3,4)])
  have "0 \<le> ?dx div pw" "?dx div pw < grid_cols" "0 \<le> ?dy div ph" "?dy div ph < grid_rows"
    using e s(1,2) by simp_all
  then have "0 \<le> ?dx" "?dx < grid_cols * pw" "0 \<le> ?dy" "?dy < grid_rows * ph"
    using assms(3,4) by (simp_all add: pos_imp_zdiv_nonneg_iff div_less_cells)
  then show ?thesis by (simp add: in_region_def)
qed

lemma cell_piece_fields:
  "0 \<le> pw \<Longrightarrow> 0 \<le> ph \<Longrightarrow>
   rect_width (rect (cell_piece pw ph start_pos row col)) = pw \<and>
   rect_height (rect (cell_piece pw ph start_pos row col)) = ph \<and>
   correct_pos (cell_piece pw ph start_pos row col) =
     (fst start_pos + col * pw, snd start_pos + row * ph) \<and>
   topleft (rect (cell_piece pw ph start_pos row col)) =
     (fst start_pos + col * pw, snd start_pos + row * ph) \<and>
   \<not> moving (cell_piece pw ph start_pos row col)"
  by (simp add: cell_piece_def topleft_def)

lemma nth_grid_pieces_int:
  assumes "0 \<le> row" "row < grid_rows" "0 \<le> col" "col < grid_cols"
  shows "grid_pieces pw ph start_pos grid_rows grid_cols ! nat (row * grid_cols + col) =
           cell_piece pw ph start_pos row col"
proof -
  have "nat (row * grid_cols + col) = nat row * nat grid_cols + nat col"
    using assms by (simp add: nat_add_distrib nat_mult_distrib)
  moreover have "nat row < nat grid_rows" "nat col < nat grid_cols" using assms by simp_all
  ultimately show ?thesis using assms by (simp add: nth_grid_pieces)
qed

text \<open>
  Claim C2. For every image and every \<open>grid_rows \<ge> 1\<close>, \<open>grid_cols \<ge> 1\<close> for which the
  piece width \<open>pw = image_width div grid_cols\<close> and the piece height
  \<open>ph = image_height div grid_rows\<close> are positive, and every origin \<open>start_pos\<close> for which
  the target positions are coordinates a pygame \<^verbatim>\<open>Rect\<close> can hold (the first and the last
  target of a row and of a column fit 32-bit C integers), \<^verbatim>\<open>create_puzzle_pieces\<close> returns
  exactly \<open>grid_rows * grid_cols\<close> pieces in row-major order: the piece of cell
  \<open>(row, col)\<close> stands at index \<open>row * grid_cols + col\<close>, is \<open>pw\<close> wide and \<open>ph\<close> high, and
  has the target position \<open>start_pos + (col * pw, row * ph)\<close>. The target rectangles tile
  the region from \<open>start_pos\<close> to \<open>start_pos + (grid_cols * pw, grid_rows * ph)\<close> exactly and
  disjointly: every target rectangle lies inside the region, and every point of the
  region lies in the target rectangle of exactly one piece. The witness is the 2 x 2
  grid of a 100 x 100 image at origin (0, 0): four 50 x 50 pieces with the targets
  (0, 0), (50, 0), (0, 50), (50, 50).
\<close>

theorem create_puzzle_pieces_tiles:
  assumes "1 \<le> grid_rows" and "1 \<le> grid_cols"
    and "pw = fst (get_size img) div grid_cols" and "ph = snd (get_size img) div grid_rows"
    and "0 < pw" and "0 < ph"
    and "c_int (fst start_pos)" and "c_int (fst start_pos + (grid_cols - 1) * pw)"
    and "c_int (snd start_pos)" and "c_int (snd start_pos + (grid_rows - 1) * ph)"
  shows "\<exists>pieces.
     create_puzzle_pieces img grid_rows grid_cols start_pos = Inr pieces \<and>
     length pieces = nat (grid_rows * grid_cols) \<and>
     (\<forall>row col. 0 \<le> row \<and> row < grid_rows \<and> 0 \<le> col \<and> col < grid_cols \<longrightarrow>
        rect_width (rect (pieces ! nat (row * grid_cols + col))) = pw \<and>
        rect_height (rect (pieces ! nat (row * grid_cols + col))) = ph \<and>
        correct_pos (pieces ! nat (row * grid_cols + col)) =
          (fst start_pos + col * pw, snd start_pos + row * ph)) \<and>
     (\<forall>i pos. i < length pieces \<and> collidepoint (target_rect (pieces ! i)) pos \<longrightarrow>
        in_region start_pos (fst start_pos + grid_cols * pw, snd start_pos + grid_rows * ph) pos) \<and>
     (\<forall>pos. in_region start_pos (fst start_pos + grid_cols * pw, snd start_pos + grid_rows * ph) pos \<longrightarrow>
        (\<exists>!i. i < length pieces \<and> collidepoint (target_rect (pieces ! i)) pos))"
proof -
  let ?ps = "grid_pieces pw ph start_pos grid_rows grid_cols"
  have "create_puzzle_pieces img grid_rows grid_cols start_pos = Inr ?ps"
    unfolding assms(3,4)
    using assms(1,2) assms(7-10) [unfolded assms(3,4)] by (rule create_puzzle_pieces_grid)
  moreover have "length ?ps = nat (grid_rows * grid_cols)"
    using assms(1,2) by (simp add: length_grid_pieces nat_mult_distrib)
  moreover have "rect_width (rect (?ps ! nat (row * grid_cols + col))) = pw \<and>
        rect_height (rect (?ps ! nat (row * grid_cols + col))) = ph \<and>
        correct_pos (?ps ! nat (row * grid_cols + col)) =
          (fst start_pos + col * pw, snd start_pos + row * ph)"
    if "0 \<le> row \<and> row < grid_rows \<and> 0 \<le> col \<and> col < grid_cols" for row col
    using that assms(5,6) by (simp add: nth_grid_pieces_int cell_piece_fields)
  moreover have "in_region start_pos (fst start_pos + grid_cols * pw, snd start_pos + grid_rows * ph) pos"
    if "i < length ?ps \<and> collidepoint (target_rect (?ps ! i)) pos" for i pos
    using grid_pieces_inside [OF assms(1,2,5,6)] that by blast
  moreover have "\<exists>!i. i < length ?ps \<and> collidepoint (target_rect (?ps ! i)) pos"
    if "in_region start_pos (fst start_pos + grid_cols * pw, snd start_pos + grid_rows * ph) pos" for pos
    using that by (rule grid_pieces_tiling [OF assms(1,2,5,6)])
  ultimately show ?thesis by blast
qed

text \<open>The scenario of the specification, computed.\<close>

lemma create_2x2: "create_puzzle_pieces (Surface 100 100) 2 2 (0, 0) =
     Inr [\<lparr>image_s = Surface 50 50, correct_pos = (0, 0),
            rect = \<lparr>rect_x = 0, rect_y = 0, rect_width = 50, rect_height = 50\<rparr>, moving = False\<rparr>,
          \<lparr>image_s = Surface 50 50, correct_pos = (50, 0),
            rect = \<lparr>rect_x = 50, rect_y = 0, rect_width = 50, rect_height = 50\<rparr>, moving = False\<rparr>,
          \<lparr>image_s = Surface 50 50, correct_pos = (0, 50),
            rect = \<lparr>rect_x = 0, rect_y = 50, rect_width = 50, rect_height = 50\<rparr>, moving = False\<rparr>,
          \<lparr>image_s = Surface 50 50, correct_pos = (50, 50),
            rect = \<lparr>rect_x = 50, rect_y = 50, rect_width = 50, rect_height = 50\<rparr>, moving = False\<rparr>]"
  by (simp add: create_puzzle_pieces_def get_size_def range_py_def upto_rec1 subsurface_def
      copy_surface_def PuzzlePiece_init_def get_rect_def c_int_def Let_def)

theorem create_puzzle_pieces_tiles_witness:
  "(1::int) \<le> 2 \<and> (50::int) = fst (get_size (Surface 100 100)) div 2 \<and>
   (50::int) = snd (get_size (Surface 100 100)) div 2 \<and> (0::int) < 50 \<and>
   c_int (fst (0::int, 0::int)) \<and> c_int (fst (0::int, 0::int) + (2 - 1) * 50) \<and>
   c_int (snd (0::int, 0::int)) \<and> c_int (snd (0::int, 0::int) + (2 - 1) * 50) \<and>
   create_puzzle_pieces (Surface 100 100) 2 2 (0, 0) =
     Inr [\<lparr>image_s = Surface 50 50, correct_pos = (0, 0),
            rect = \<lparr>rect_x = 0, rect_y = 0, rect_width = 50, rect_height = 50\<rparr>, moving = False\<rparr>,
          \<lparr>image_s = Surface 50 50, correct_pos = (50, 0),
            rect = \<lparr>rect_x = 50, rect_y = 0, rect_width = 50, rect_height = 50\<rparr>, moving = False\<rparr>,
          \<lparr>image_s = Surface 50 50, correct_pos = (0, 50),
            rect = \<lparr>rect_x = 0, rect_y = 50, rect_width = 50, rect_height = 50\<rparr>, moving = False\<rparr>,
          \<lparr>image_s = Surface 50 50, correct_pos = (50, 50),
            rect = \<lparr>rect_x = 50, rect_y = 50, rect_width = 50, rect_height = 50\<rparr>, moving = False\<rparr>] \<and>
   (\<exists>!i. i < 4 \<and>
      collidepoint (target_rect (projr (create_puzzle_pieces (Surface 100 100) 2 2 (0, 0)) ! i)) (75, 20))"
proof -
  have h: "(1::int) \<le> 2" "(50::int) = fst (get_size (Surface 100 100)) div 2"
    "(50::int) = snd (get_size (Surface 100 100)) div 2" "(0::int) < 50"
    by (simp_all add: get_size_def)
  have r: "in_region (0, 0) (fst (0::int, 0::int) + 2 * 50, snd (0::int, 0::int) + 2 * 50) (75, 20)"
    by (simp add: in_region_def)
  have c: "c_int (fst (0::int, 0::int))" "c_int (fst (0::int, 0::int) + (2 - 1) * 50)"
    "c_int (snd (0::int, 0::int))" "c_int (snd (0::int, 0::int) + (2 - 1) * 50)"
    by (simp_all add: c_int_def)
  from create_puzzle_pieces_tiles [OF h(1) h(1) h(2) h(3) h(4) h(4) c]
  obtain pieces where p: "create_puzzle_pieces (Surface 100 100) 2 2 (0, 0) = Inr pieces"
    "length pieces = nat (2 * 2)"
    "\<forall>pos. in_region (0, 0) (fst (0::int, 0::int) + 2 * 50, snd (0::int, 0::int) + 2 * 50) pos \<longrightarrow>
        (\<exists>!i. i < length pieces \<and> collidepoint (target_rect (pieces ! i)) pos)"
    by blast
  from p(3) r have "\<exists>!i. i < length pieces \<and> collidepoint (target_rect (pieces ! i)) (75, 20)"
    by blast
  then have "\<exists>!i. i < 4 \<and>
      collidepoint (target_rect (projr (create_puzzle_pieces (Surface 100 100) 2 2 (0, 0)) ! i)) (75, 20)"
    using p(1,2) by simp
  then show ?thesis using h c create_2x2 by simp
qed

text \<open>
  Outside that range the constructor raises: with the origin at the largest C integer
  the second piece of the first row has no representable target.
\<close>

lemma create_2x2_out_of_range:
  "create_puzzle_pieces (Surface 100 100) 2 2 (2147483647, 0) = Inl TypeError"
  by (simp add: create_puzzle_pieces_def get_size_def range_py_def upto_rec1 subsurface_def
      copy_surface_def PuzzlePiece_init_def get_rect_def c_int_def Let_def)

section \<open>Zero-size pieces\<close>

lemma set_grid_pieces:
  "p \<in> set (grid_pieces pw ph start_pos grid_rows grid_cols) \<Longrightarrow>
   \<exists>row col. p = cell_piece pw ph start_pos row col"
  by (auto simp: grid_pieces_def)

lemma create_zero_cols: "create_puzzle_pieces img grid_rows 0 start_pos = Inl ZeroDivisionError"
  by (simp add: create_puzzle_pieces_def)

lemma create_zero_rows: "create_puzzle_pieces img 0 grid_cols start_pos = Inl ZeroDivisionError"
  by (simp add: create_puzzle_pieces_def)

text \<open>
  Claim C7 says that \<^verbatim>\<open>create_puzzle_pieces\<close> fails, before it constructs a piece,
  whenever the piece width or the piece height is zero. The function has no such check.
  For a 2 x 6 image cut into the 3 x 3 grid the piece width is \<open>2 div 3 = 0\<close>, and the
  function returns nine pieces of width 0.
\<close>

theorem create_puzzle_pieces_zero_width_counterexample:
  "fst (get_size (Surface 2 6)) div 3 = 0 \<and>
   create_puzzle_pieces (Surface 2 6) 3 3 (50, 50) =
     Inr [\<lparr>image_s = Surface 0 2, correct_pos = (50, 50),
            rect = \<lparr>rect_x = 50, rect_y = 50, rect_width = 0, rect_height = 2\<rparr>, moving = False\<rparr>,
          \<lparr>image_s = Surface 0 2, correct_pos = (50, 50),
            rect = \<lparr>rect_x = 50, rect_y = 50, rect_width = 0, rect_height = 2\<rparr>, moving = False\<rparr>,
          \<lparr>image_s = Surface 0 2, correct_pos = (50, 50),
            rect = \<lparr>rect_x = 50, rect_y = 50, rect_width = 0, rect_height = 2\<rparr>, moving = False\<rparr>,
          \<lparr>image_s = Surface 0 2, correct_pos = (50, 52),
            rect = \<lparr>rect_x = 50, rect_y = 52, rect_width = 0, rect_height = 2\<rparr>, moving = False\<rparr>,
          \<lparr>image_s = Surface 0 2, correct_pos = (50, 52),
            rect = \<lparr>rect_x = 50, rect_y = 52, rect_width = 0, rect_height = 2\<rparr>, moving = False\<rparr>,
          \<lparr>image_s = Surface 0 2, correct_pos = (50, 52),
            rect = \<lparr>rect_x = 50, rect_y = 52, rect_width = 0, rect_height = 2\<rparr>, moving = False\<rparr>,
          \<lparr>image_s = Surface 0 2, correct_pos = (50, 54),
            rect = \<lparr>rect_x = 50, rect_y = 54, rect_width = 0, rect_height = 2\<rparr>, moving = False\<rparr>,
          \<lparr>image_s = Surface 0 2, correct_pos = (50, 54),
            rect = \<lparr>rect_x = 50, rect_y = 54, rect_width = 0, rect_height = 2\<rparr>, moving = False\<rparr>,
          \<lparr>image_s = Surface 0 2, correct_pos = (50, 54),
            rect = \<lparr>rect_x = 50, rect_y = 54, rect_width = 0, rect_height = 2\<rparr>, moving = False\<rparr>]"
  by (simp add: create_puzzle_pieces_def get_size_def range_py_def upto_rec1 subsurface_def
      copy_surface_def PuzzlePiece_init_def get_rect_def c_int_def Let_def)

text \<open>
  Claim C7, amended. \<^verbatim>\<open>create_puzzle_pieces\<close> has no check of the piece size. For
  \<open>grid_rows \<ge> 1\<close> and \<open>grid_cols \<ge> 1\<close> and target positions that a pygame \<^verbatim>\<open>Rect\<close> can
  hold, when the piece width or the piece height is zero it does not fail: it returns
  \<open>grid_rows * grid_cols\<close> pieces of that zero-area size. When \<open>grid_cols\<close> or \<open>grid_rows\<close>
  is 0 it fails with the \<^verbatim>\<open>ZeroDivisionError\<close> of the two divisions, which stand before
  the loops and so before any piece is constructed.
\<close>

theorem create_puzzle_pieces_no_size_check:
  assumes "1 \<le> grid_rows" and "1 \<le> grid_cols"
    and "pw = fst (get_size img) div grid_cols" and "ph = snd (get_size img) div grid_rows"
    and "pw = 0 \<or> ph = 0"
    and "c_int (fst start_pos)" and "c_int (fst start_pos + (grid_cols - 1) * pw)"
    and "c_int (snd start_pos)" and "c_int (snd start_pos + (grid_rows - 1) * ph)"
  shows "(\<exists>pieces.
     create_puzzle_pieces img grid_rows grid_cols start_pos = Inr pieces \<and>
     length pieces = nat (grid_rows * grid_cols) \<and>
     (\<forall>p \<in> set pieces. rect_width (rect p) = pw \<and> rect_height (rect p) = ph)) \<and>
     create_puzzle_pieces img grid_rows 0 start_pos = Inl ZeroDivisionError \<and>
     create_puzzle_pieces img 0 grid_cols start_pos = Inl ZeroDivisionError"
proof -
  let ?ps = "grid_pieces pw ph start_pos grid_rows grid_cols"
  have nn: "0 \<le> pw" "0 \<le> ph"
    using assms(1,2) by (simp_all add: assms(3,4) get_size_def pos_imp_zdiv_nonneg_iff)
  have "create_puzzle_pieces img grid_rows grid_cols start_pos = Inr ?ps"
    unfolding assms(3,4)
    using assms(1,2) assms(6-9) [unfolded assms(3,4)] by (rule create_puzzle_pieces_grid)
  moreover have "length ?ps = nat (grid_rows * grid_cols)"
    using assms(1,2) by (simp add: length_grid_pieces nat_mult_distrib)
  moreover have "rect_width (rect p) = pw \<and> rect_height (rect p) = ph" if "p \<in> set ?ps" for p
    using set_grid_pieces [OF that] nn by (auto simp: cell_piece_fields)
  ultimately show ?thesis by (simp add: create_zero_cols create_zero_rows)
qed

theorem create_puzzle_pieces_no_size_check_witness:
  "(1::int) \<le> 3 \<and> (0::int) = fst (get_size (Surface 2 6)) div 3 \<and>
   (2::int) = snd (get_size (Surface 2 6)) div 3 \<and>
   c_int (fst (50::int, 50::int)) \<and> c_int (fst (50::int, 50::int) + (3 - 1) * 0) \<and>
   c_int (snd (50::int, 50::int)) \<and> c_int (snd (50::int, 50::int) + (3 - 1) * 2) \<and>
   length (projr (create_puzzle_pieces (Surface 2 6) 3 3 (50, 50))) = 9 \<and>
   \<not> isl (create_puzzle_pieces (Surface 2 6) 3 3 (50, 50))"
proof -
  have h: "(1::int) \<le> 3" "(0::int) = fst (get_size (Surface 2 6)) div 3"
    "(2::int) = snd (get_size (Surface 2 6)) div 3" "(0::int) = 0 \<or> (2::int) = 0"
    by (simp_all add: get_size_def)
  have c: "c_int (fst (50::int, 50::int))" "c_int (fst (50::int, 50::int) + (3 - 1) * 0)"
    "c_int (snd (50::int, 50::int))" "c_int (snd (50::int, 50::int) + (3 - 1) * 2)"
    by (simp_all add: c_int_def)
  from create_puzzle_pieces_no_size_check [OF h(1) h(1) h(2) h(3) h(4) c]
  obtain pieces where "create_puzzle_pieces (Surface 2 6) 3 3 (50, 50) = Inr pieces"
    "length pieces = nat (3 * 3)" by blast
  then show ?thesis using h c by simp
qed

text \<open>Outside that range the constructor raises, here at the first piece.\<close>

lemma create_zero_width_out_of_range:
  "create_puzzle_pieces (Surface 2 6) 3 3 (2147483648, 50) = Inl TypeError"
  by (simp add: create_puzzle_pieces_def get_size_def range_py_def upto_rec1 subsurface_def
      copy_surface_def PuzzlePiece_init_def get_rect_def c_int_def Let_def)

section \<open>Fresh pieces\<close>

lemma PuzzlePiece_init_home:
  "PuzzlePiece_init img cpos = Inr p \<Longrightarrow> topleft (rect p) = correct_pos p \<and> \<not> moving p"
  by (auto simp: PuzzlePiece_init_def get_rect_def topleft_def split: sum.splits if_splits)

lemma cols_loop_home:
  "cols_loop img pw ph start_pos row cs acc = Inr ps \<Longrightarrow>
   \<forall>p \<in> set acc. topleft (rect p) = correct_pos p \<and> \<not> moving p \<Longrightarrow>
   \<forall>p \<in> set ps. topleft (rect p) = correct_pos p \<and> \<not> moving p"
proof (induction cs arbitrary: acc)
  case Nil
  then show ?case by simp
next
  case (Cons c cs)
  from Cons.prems(1) obtain sub piece where
    i: "PuzzlePiece_init (copy_surface sub) (fst start_pos + c * pw, snd start_pos + row * ph)
          = Inr piece"
    and l: "cols_loop img pw ph start_pos row cs (acc @ [piece]) = Inr ps"
    by (auto simp: Let_def split: sum.splits)
  have "\<forall>p \<in> set (acc @ [piece]). topleft (rect p) = correct_pos p \<and> \<not> moving p"
    using Cons.prems(2) PuzzlePiece_init_home [OF i] by auto
  with l show ?case by (rule Cons.IH)
qed

lemma rows_loop_home:
  "rows_loop img pw ph start_pos grid_cols rs acc = Inr ps \<Longrightarrow>
   \<forall>p \<in> set acc. topleft (rect p) = correct_pos p \<and> \<not> moving p \<Longrightarrow>
   \<forall>p \<in> set ps. topleft (rect p) = correct_pos p \<and> \<not> moving p"
proof (induction rs arbitrary: acc)
  case Nil
  then show ?case by simp
next
  case (Cons r rs)
  from Cons.prems(1) obtain mid where
    m: "cols_loop img pw ph start_pos r (range_py grid_cols) acc = Inr mid"
    "rows_loop img pw ph start_pos grid_cols rs mid = Inr ps"
    by (auto split: sum.splits)
  from m(2) cols_loop_home [OF m(1) Cons.prems(2)] show ?case by (rule Cons.IH)
qed

lemma snap_at_home:
  assumes "topleft (rect p) = correct_pos p"
  shows "snap_to_place p = (True, p)"
proof -
  have "rect_x (rect p) = fst (correct_pos p)" "rect_y (rect p) = snd (correct_pos p)"
    using assms by (simp_all add: topleft_def flip: assms)
  then show ?thesis
    by (simp add: snap_to_place_def SNAP_DISTANCE_def topleft_def set_topleft_def)
qed

text \<open>
  Claim C10. Every piece that \<^verbatim>\<open>create_puzzle_pieces\<close> returns stands, as constructed
  and before the randomizer runs, at its target position (the rectangle is initialised
  with its top-left corner at \<open>correct_pos\<close>) and is not being dragged; so
  \<^verbatim>\<open>snap_to_place\<close> on such a piece returns true and leaves the piece as it is.
\<close>

theorem create_puzzle_pieces_at_home:
  assumes "create_puzzle_pieces img grid_rows grid_cols start_pos = Inr ps"
    and "p \<in> set ps"
  shows "topleft (rect p) = correct_pos p \<and> \<not> moving p \<and> snap_to_place p = (True, p)"
proof -
  from assms(1) have
    "rows_loop img (fst (get_size img) div grid_cols) (snd (get_size img) div grid_rows)
       start_pos grid_cols (range_py grid_rows) [] = Inr ps"
    by (simp add: create_puzzle_pieces_def Let_def split: if_splits)
  from rows_loop_home [OF this] assms(2)
  have "topleft (rect p) = correct_pos p \<and> \<not> moving p" by simp
  then show ?thesis by (simp add: snap_at_home)
qed

theorem create_puzzle_pieces_at_home_witness:
  "\<not> isl (create_puzzle_pieces (Surface 100 100) 2 2 (0, 0)) \<and>
   projr (create_puzzle_pieces (Surface 100 100) 2 2 (0, 0)) ! 1
     \<in> set (projr (create_puzzle_pieces (Surface 100 100) 2 2 (0, 0))) \<and>
   correct_pos (projr (create_puzzle_pieces (Surface 100 100) 2 2 (0, 0)) ! 1) = (50, 0) \<and>
   snap_to_place (projr (create_puzzle_pieces (Surface 100 100) 2 2 (0, 0)) ! 1) =
     (True, projr (create_puzzle_pieces (Surface 100 100) 2 2 (0, 0)) ! 1)"
proof -
  let ?ps = "projr (create_puzzle_pieces (Surface 100 100) 2 2 (0, 0))"
  have c: "create_puzzle_pieces (Surface 100 100) 2 2 (0, 0) = Inr ?ps"
    by (simp add: create_2x2)
  have m: "?ps ! 1 \<in> set ?ps" by (simp add: create_2x2)
  from create_puzzle_pieces_at_home [OF c m]
  have "snap_to_place (?ps ! 1) = (True, ?ps ! 1)" by simp
  moreover have "correct_pos (?ps ! 1) = (50, 0)" by (simp add: create_2x2)
  ultimately show ?thesis using m by (simp add: create_2x2)
qed

section \<open>Scattering\<close>

lemma randint_in_range:
  assumes "a \<le> b"
  shows "\<exists>v. randint a b raw = Inr v \<and> a \<le> v \<and> v \<le> b"
proof -
  have "0 < b - a + 1" using assms by simp
  then have "0 \<le> int raw mod (b - a + 1)" "int raw mod (b - a + 1) < b - a + 1"
    by (rule pos_mod_sign, rule pos_mod_bound)
  then show ?thesis using assms by (simp add: randint_def)
qed

lemma randint_empty: "b < a \<Longrightarrow> randint a b raw = Inl ValueError"
  by (simp add: randint_def)

lemma randint_error: "randint a b raw = Inl e \<Longrightarrow> e = ValueError"
  by (simp add: randint_def split: if_splits)

lemma shuffle_loop_fits:
  "\<forall>p \<in> set ps. fits screen_rect p \<Longrightarrow>
   \<exists>ps'. shuffle_loop rnd k ps screen_rect = Inr ps' \<and> list_all2 (placed screen_rect) ps ps'"
proof (induction ps arbitrary: k)
  case Nil
  then show ?case by simp
next
  case (Cons p ps)
  from Cons.prems have f: "0 \<le> rect_width screen_rect - rect_width (rect p)"
    "0 \<le> rect_height screen_rect - rect_height (rect p)"
    by (simp_all add: fits_def)
  from randint_in_range [OF f(1)] obtain new_x where
    x: "randint 0 (rect_width screen_rect - rect_width (rect p)) (rnd k) = Inr new_x"
    "0 \<le> new_x" "new_x \<le> rect_width screen_rect - rect_width (rect p)" by blast
  from randint_in_range [OF f(2)] obtain new_y where
    y: "randint 0 (rect_height screen_rect - rect_height (rect p)) (rnd (k + 1)) = Inr new_y"
    "0 \<le> new_y" "new_y \<le> rect_height screen_rect - rect_height (rect p)" by blast
  from Cons.prems have "\<forall>q \<in> set ps. fits screen_rect q" by simp
  from Cons.IH [OF this, of "k + 2"] obtain rest' where
    r: "shuffle_loop rnd (k + 2) ps screen_rect = Inr rest'" "list_all2 (placed screen_rect) ps rest'"
    by blast
  have "placed screen_rect p (p\<lparr>rect := (rect p)\<lparr>rect_x := new_x, rect_y := new_y\<rparr>\<rparr>)"
    using x(2,3) y(2,3) by (simp add: placed_def)
  then show ?case using x(1) y(1) r by simp
qed

lemma shuffle_loop_too_large:
  "\<exists>p \<in> set ps. \<not> fits screen_rect p \<Longrightarrow> shuffle_loop rnd k ps screen_rect = Inl ValueError"
proof (induction ps arbitrary: k)
  case Nil
  then show ?case by simp
next
  case (Cons p ps)
  show ?case
  proof (cases "fits screen_rect p")
    case True
    with Cons.prems have "\<exists>q \<in> set ps. \<not> fits screen_rect q" by simp
    then have "shuffle_loop rnd (k + 2) ps screen_rect = Inl ValueError" by (rule Cons.IH)
    then show ?thesis by (auto split: sum.splits dest: randint_error)
  next
    case False
    then have "rect_width screen_rect - rect_width (rect p) < 0 \<or>
               rect_height screen_rect - rect_height (rect p) < 0"
      by (auto simp: fits_def)
    then show ?thesis
      by (auto simp: randint_empty split: sum.splits dest: randint_error)
  qed
qed

lemma shuffle_loop_moving:
  "shuffle_loop rnd k ps screen_rect = Inr ps' \<Longrightarrow> map moving ps' = map moving ps"
proof (induction ps arbitrary: k ps')
  case Nil
  then show ?case by simp
next
  case (Cons p ps)
  from Cons.prems obtain new_x new_y rest' where
    r: "shuffle_loop rnd (k + 2) ps screen_rect = Inr rest'"
    "ps' = p\<lparr>rect := (rect p)\<lparr>rect_x := new_x, rect_y := new_y\<rparr>\<rparr> # rest'"
    by (auto split: sum.splits)
  from Cons.IH [OF r(1)] r(2) show ?case by simp
qed

lemma placed_inside:
  assumes "placed screen_rect p p'" and "topleft screen_rect = (0, 0)"
  shows "inside screen_rect (rect p')"
proof -
  from assms(2) have "rect_x screen_rect = 0" "rect_y screen_rect = 0"
    by (simp_all add: topleft_def)
  with assms(1) show ?thesis by (simp add: placed_def inside_def)
qed

lemma list_all2_placed_inside:
  assumes "list_all2 (placed screen_rect) ps ps'" and "topleft screen_rect = (0, 0)"
  shows "\<forall>p' \<in> set ps'. inside screen_rect (rect p')"
proof
  fix p' assume "p' \<in> set ps'"
  then obtain i where i: "i < length ps'" "ps' ! i = p'" by (auto simp: in_set_conv_nth)
  from assms(1) i(1) have "placed screen_rect (ps ! i) (ps' ! i)" by (rule list_all2_nthD2)
  with i(2) assms(2) show "inside screen_rect (rect p')" by (auto intro: placed_inside)
qed

text \<open>
  Claim C8 says that \<^verbatim>\<open>shuffle_pieces\<close> never fails and clamps the random range when a
  piece is larger than the bounds, and that otherwise the whole piece lies within the
  bounds. The function does not clamp: it passes the negative upper bound to
  \<^verbatim>\<open>random.randint\<close>, which raises \<^verbatim>\<open>ValueError\<close>; a 900 x 10 image as one piece on the
  800 x 600 screen shows it. And the function reads only the width and the height of
  the bounds: for bounds of 200 x 150 at (100, 100), a piece of that size is put at
  (0, 0), outside the bounds.
\<close>

theorem shuffle_pieces_oversize_counterexample:
  "create_puzzle_pieces (Surface 900 10) 1 1 (50, 50) =
     Inr [\<lparr>image_s = Surface 900 10, correct_pos = (50, 50),
            rect = \<lparr>rect_x = 50, rect_y = 50, rect_width = 900, rect_height = 10\<rparr>, moving = False\<rparr>] \<and>
   shuffle_pieces example_draws
     [\<lparr>image_s = Surface 900 10, correct_pos = (50, 50),
       rect = \<lparr>rect_x = 50, rect_y = 50, rect_width = 900, rect_height = 10\<rparr>, moving = False\<rparr>]
     screen_rect_main = Inl ValueError \<and>
   shuffle_pieces example_draws
     [\<lparr>image_s = Surface 200 150, correct_pos = (50, 50),
       rect = \<lparr>rect_x = 50, rect_y = 50, rect_width = 200, rect_height = 150\<rparr>, moving = False\<rparr>]
     \<lparr>rect_x = 100, rect_y = 100, rect_width = 200, rect_height = 150\<rparr> =
     Inr [\<lparr>image_s = Surface 200 150, correct_pos = (50, 50),
       rect = \<lparr>rect_x = 0, rect_y = 0, rect_width = 200, rect_height = 150\<rparr>, moving = False\<rparr>] \<and>
   \<not> inside \<lparr>rect_x = 100, rect_y = 100, rect_width = 200, rect_height = 150\<rparr>
       \<lparr>rect_x = 0, rect_y = 0, rect_width = 200, rect_height = 150\<rparr>"
  by (simp add: create_puzzle_pieces_def get_size_def range_py_def upto_rec1 subsurface_def
      copy_surface_def PuzzlePiece_init_def get_rect_def c_int_def Let_def shuffle_pieces_def randint_def
      screen_rect_main_def SCREEN_WIDTH_def SCREEN_HEIGHT_def inside_def)

text \<open>
  Claim C8, amended. When every piece is at most as wide and as high as the bounds,
  \<^verbatim>\<open>shuffle_pieces\<close> does not fail, whatever the generator draws, and each piece is moved,
  and nothing else of it changed, to a top-left corner of
  \<open>[0, bounds width - piece width] \<times> [0, bounds height - piece height]\<close>, so the whole
  piece lies in the rectangle of the bounds' width and height whose top-left corner is
  (0, 0); when the bounds themselves have their top-left corner at (0, 0), as the screen
  rectangle that \<^verbatim>\<open>main\<close> passes has, the whole piece lies within the bounds. When some
  piece is wider or higher than the bounds, there is no clamping: \<^verbatim>\<open>shuffle_pieces\<close>
  raises \<^verbatim>\<open>ValueError\<close>.
\<close>

theorem shuffle_pieces_spec:
  "((\<forall>p \<in> set ps. fits screen_rect p) \<longrightarrow>
      (\<exists>pieces'. shuffle_pieces rnd ps screen_rect = Inr pieces' \<and>
         list_all2 (placed screen_rect) ps pieces' \<and>
         (topleft screen_rect = (0, 0) \<longrightarrow>
            (\<forall>p' \<in> set pieces'. inside screen_rect (rect p'))))) \<and>
   ((\<exists>p \<in> set ps. \<not> fits screen_rect p) \<longrightarrow>
      shuffle_pieces rnd ps screen_rect = Inl ValueError)"
proof (intro conjI impI)
  assume "\<forall>p \<in> set ps. fits screen_rect p"
  from shuffle_loop_fits [OF this, of rnd 0] obtain pieces' where
    r: "shuffle_loop rnd 0 ps screen_rect = Inr pieces'"
    "list_all2 (placed screen_rect) ps pieces'" by blast
  from r(2) have "topleft screen_rect = (0, 0) \<longrightarrow>
      (\<forall>p' \<in> set pieces'. inside screen_rect (rect p'))"
    by (auto dest: list_all2_placed_inside)
  with r show "\<exists>pieces'. shuffle_pieces rnd ps screen_rect = Inr pieces' \<and>
         list_all2 (placed screen_rect) ps pieces' \<and>
         (topleft screen_rect = (0, 0) \<longrightarrow>
            (\<forall>p' \<in> set pieces'. inside screen_rect (rect p')))"
    by (simp add: shuffle_pieces_def)
next
  assume "\<exists>p \<in> set ps. \<not> fits screen_rect p"
  then show "shuffle_pieces rnd ps screen_rect = Inl ValueError"
    by (simp add: shuffle_pieces_def shuffle_loop_too_large)
qed

text \<open>Two pieces of 10 x 10 on the 800 x 600 screen, with the example draws.\<close>

lemma shuffle_2: "shuffle_pieces example_draws
     [\<lparr>image_s = Surface 10 10, correct_pos = (50, 50),
       rect = \<lparr>rect_x = 50, rect_y = 50, rect_width = 10, rect_height = 10\<rparr>, moving = False\<rparr>,
      \<lparr>image_s = Surface 10 10, correct_pos = (60, 50),
       rect = \<lparr>rect_x = 60, rect_y = 50, rect_width = 10, rect_height = 10\<rparr>, moving = False\<rparr>]
     screen_rect_main =
   Inr [\<lparr>image_s = Surface 10 10, correct_pos = (50, 50),
       rect = \<lparr>rect_x = 11, rect_y = 48, rect_width = 10, rect_height = 10\<rparr>, moving = False\<rparr>,
      \<lparr>image_s = Surface 10 10, correct_pos = (60, 50),
       rect = \<lparr>rect_x = 85, rect_y = 122, rect_width = 10, rect_height = 10\<rparr>, moving = False\<rparr>]"
  by (simp add: shuffle_pieces_def randint_def example_draws_def
      screen_rect_main_def SCREEN_WIDTH_def SCREEN_HEIGHT_def)

theorem shuffle_pieces_spec_witness:
  "fits screen_rect_main
     \<lparr>image_s = Surface 10 10, correct_pos = (50, 50),
       rect = \<lparr>rect_x = 50, rect_y = 50, rect_width = 10, rect_height = 10\<rparr>, moving = False\<rparr> \<and>
   fits screen_rect_main
     \<lparr>image_s = Surface 10 10, correct_pos = (60, 50),
       rect = \<lparr>rect_x = 60, rect_y = 50, rect_width = 10, rect_height = 10\<rparr>, moving = False\<rparr> \<and>
   list_all2 (placed screen_rect_main)
     [\<lparr>image_s = Surface 10 10, correct_pos = (50, 50),
       rect = \<lparr>rect_x = 50, rect_y = 50, rect_width = 10, rect_height = 10\<rparr>, moving = False\<rparr>,
      \<lparr>image_s = Surface 10 10, correct_pos = (60, 50),
       rect = \<lparr>rect_x = 60, rect_y = 50, rect_width = 10, rect_height = 10\<rparr>, moving = False\<rparr>]
     [\<lparr>image_s = Surface 10 10, correct_pos = (50, 50),
       rect = \<lparr>rect_x = 11, rect_y = 48, rect_width = 10, rect_height = 10\<rparr>, moving = False\<rparr>,
      \<lparr>image_s = Surface 10 10, correct_pos = (60, 50),
       rect = \<lparr>rect_x = 85, rect_y = 122, rect_width = 10, rect_height = 10\<rparr>, moving = False\<rparr>] \<and>
   topleft screen_rect_main = (0, 0) \<and>
   inside screen_rect_main \<lparr>rect_x = 11, rect_y = 48, rect_width = 10, rect_height = 10\<rparr> \<and>
   inside screen_rect_main \<lparr>rect_x = 85, rect_y = 122, rect_width = 10, rect_height = 10\<rparr> \<and>
   \<not> fits screen_rect_main
     \<lparr>image_s = Surface 900 10, correct_pos = (50, 50),
       rect = \<lparr>rect_x = 50, rect_y = 50, rect_width = 900, rect_height = 10\<rparr>, moving = False\<rparr> \<and>
   shuffle_pieces example_draws
     [\<lparr>image_s = Surface 900 10, correct_pos = (50, 50),
       rect = \<lparr>rect_x = 50, rect_y = 50, rect_width = 900, rect_height = 10\<rparr>, moving = False\<rparr>]
     screen_rect_main = Inl ValueError"
proof -
  let ?screen = "screen_rect_main"
  let ?p1 = "\<lparr>image_s = Surface 10 10, correct_pos = (50, 50),
       rect = \<lparr>rect_x = 50, rect_y = 50, rect_width = 10, rect_height = 10\<rparr>, moving = False\<rparr>"
  let ?p2 = "\<lparr>image_s = Surface 10 10, correct_pos = (60, 50),
       rect = \<lparr>rect_x = 60, rect_y = 50, rect_width = 10, rect_height = 10\<rparr>, moving = False\<rparr>"
  let ?big = "\<lparr>image_s = Surface 900 10, correct_pos = (50, 50),
       rect = \<lparr>rect_x = 50, rect_y = 50, rect_width = 900, rect_height = 10\<rparr>, moving = False\<rparr>"
  have f: "fits ?screen ?p1" "fits ?screen ?p2" "\<not> fits ?screen ?big"
    by (simp_all add: fits_def screen_rect_main_def SCREEN_WIDTH_def SCREEN_HEIGHT_def)
  from f(1,2) have "\<forall>p \<in> set [?p1, ?p2]. fits ?screen p" by simp
  with shuffle_pieces_spec [of "[?p1, ?p2]" ?screen example_draws]
  obtain pieces' where q: "shuffle_pieces example_draws [?p1, ?p2] ?screen = Inr pieces'"
    "list_all2 (placed ?screen) [?p1, ?p2] pieces'"
    "topleft ?screen = (0, 0) \<longrightarrow> (\<forall>p' \<in> set pieces'. inside ?screen (rect p'))" by blast
  have o: "topleft ?screen = (0, 0)"
    by (simp add: topleft_def screen_rect_main_def)
  from q(1) have e: "pieces' =
     [\<lparr>image_s = Surface 10 10, correct_pos = (50, 50),
       rect = \<lparr>rect_x = 11, rect_y = 48, rect_width = 10, rect_height = 10\<rparr>, moving = False\<rparr>,
      \<lparr>image_s = Surface 10 10, correct_pos = (60, 50),
       rect = \<lparr>rect_x = 85, rect_y = 122, rect_width = 10, rect_height = 10\<rparr>, moving = False\<rparr>]"
    by (simp only: shuffle_2 sum.inject)
  from q(2) have a: "list_all2 (placed ?screen) [?p1, ?p2]
     [\<lparr>image_s = Surface 10 10, correct_pos = (50, 50),
       rect = \<lparr>rect_x = 11, rect_y = 48, rect_width = 10, rect_height = 10\<rparr>, moving = False\<rparr>,
      \<lparr>image_s = Surface 10 10, correct_pos = (60, 50),
       rect = \<lparr>rect_x = 85, rect_y = 122, rect_width = 10, rect_height = 10\<rparr>, moving = False\<rparr>]"
    by (simp only: e)
  from q(3) o have i: "inside ?screen \<lparr>rect_x = 11, rect_y = 48, rect_width = 10, rect_height = 10\<rparr>"
    "inside ?screen \<lparr>rect_x = 85, rect_y = 122, rect_width = 10, rect_height = 10\<rparr>"
    by (simp_all add: e)
  from f(3) have "\<exists>p \<in> set [?big]. \<not> fits ?screen p" by simp
  with shuffle_pieces_spec [of "[?big]" ?screen example_draws]
  have b: "shuffle_pieces example_draws [?big] ?screen = Inl ValueError" by blast
  from f a o i b show ?thesis by blast
qed

section \<open>The initial state\<close>

text \<open>
  The session that \<^verbatim>\<open>main\<close> starts with, from the pieces it has created and scattered,
  is an initial state: no piece is selected and no flag is set.
\<close>

lemma initial_start_session:
  assumes "\<forall>p \<in> set ps. \<not> moving p"
  shows "initial (start_session ps)"
proof -
  have "\<forall>r \<in> set [0..<length ps]. \<not> moving (ps ! r)" using assms by simp
  then show ?thesis
    by (simp add: initial_def start_session_def dragged_def filter_empty_conv)
qed

lemma program_start_initial:
  assumes "create_puzzle_pieces img grid_rows grid_cols start_pos = Inr ps0"
    and "shuffle_pieces rnd ps0 screen_rect = Inr ps"
  shows "initial (start_session ps)"
proof (rule initial_start_session)
  from assms(1) have "\<forall>p \<in> set ps0. \<not> moving p"
    using rows_loop_home [of img _ _ start_pos grid_cols "range_py grid_rows" "[]" ps0]
    by (simp add: create_puzzle_pieces_def Let_def split: if_splits)
  then have "\<forall>b \<in> set (map moving ps0). \<not> b" by simp
  moreover from assms(2) have "map moving ps = map moving ps0"
    by (simp add: shuffle_pieces_def shuffle_loop_moving)
  ultimately have "\<forall>b \<in> set (map moving ps). \<not> b" by simp
  then show "\<forall>p \<in> set ps. \<not> moving p" by simp
qed

section \<open>Picking a piece up\<close>

lemma hit_loop_None:
  "hit_loop h rs p = None \<longleftrightarrow> (\<forall>r \<in> set rs. \<not> collidepoint (rect (h r)) p)"
  by (induction rs) simp_all


lemma hit_loop_rev_topmost:
  assumes "i < length ps" and "collidepoint (rect (h (ps ! i))) p"
    and "\<forall>j. i < j \<and> j < length ps \<longrightarrow> \<not> collidepoint (rect (h (ps ! j))) p"
  shows "hit_loop h (rev ps) p = Some (ps ! i)"
  using assms
proof (induction ps rule: rev_induct)
  case Nil
  then show ?case by simp
next
  case (snoc x xs)
  show ?case
  proof (cases "i = length xs")
    case True
    with snoc.prems(2) show ?thesis by simp
  next
    case False
    with snoc.prems(1) have i: "i < length xs" by simp
    from snoc.prems(3)
    have "i < length xs \<and> length xs < length (xs @ [x]) \<longrightarrow>
            \<not> collidepoint (rect (h ((xs @ [x]) ! length xs))) p"
      by (rule spec)
    with i have "\<not> collidepoint (rect (h ((xs @ [x]) ! length xs))) p"
      by simp
    then have nx: "\<not> collidepoint (rect (h x)) p" by simp
    have "hit_loop h (rev xs) p = Some (xs ! i)"
    proof (rule snoc.IH [OF i])
      from snoc.prems(2) i show "collidepoint (rect (h (xs ! i))) p" by (simp add: nth_append)
      show "\<forall>j. i < j \<and> j < length xs \<longrightarrow> \<not> collidepoint (rect (h (xs ! j))) p"
      proof (intro allI impI)
        fix j assume j: "i < j \<and> j < length xs"
        from snoc.prems(3)
        have "i < j \<and> j < length (xs @ [x]) \<longrightarrow> \<not> collidepoint (rect (h ((xs @ [x]) ! j))) p"
          by (rule spec)
        with j have "\<not> collidepoint (rect (h ((xs @ [x]) ! j))) p" by simp
        with j show "\<not> collidepoint (rect (h (xs ! j))) p" by (simp add: nth_append)
      qed
    qed
    with nx i show ?thesis by (simp add: nth_append)
  qed
qed

lemma hit_loop_topmost:
  "topmost s p r \<Longrightarrow> hit_loop (heap s) (rev (pieces s)) p = Some r"
  unfolding topmost_def using hit_loop_rev_topmost [of _ "pieces s" "heap s" p] by blast

lemma on_mouse_button_down_hit:
  assumes "hit_loop (heap s) (rev (pieces s)) p = Some r"
  shows "on_mouse_button_down s p =
           s\<lparr>selected_piece := Some r,
             offset_x := fst p - rect_x (rect (heap s r)),
             offset_y := snd p - rect_y (rect (heap s r)),
             heap := (heap s)(r := (heap s r)\<lparr>moving := True\<rparr>),
             pieces := remove1 r (pieces s) @ [r]\<rparr>"
  using assms by (simp add: on_mouse_button_down_def)

lemma on_mouse_button_down_miss:
  assumes "\<forall>r \<in> set (pieces s). \<not> collidepoint (rect (heap s r)) p"
  shows "on_mouse_button_down s p = s"
proof -
  from assms have "hit_loop (heap s) (rev (pieces s)) p = None"
    by (simp add: hit_loop_None)
  then show ?thesis by (simp add: on_mouse_button_down_def)
qed

lemma set_remove1_snoc: "r \<in> set xs \<Longrightarrow> set (remove1 r xs @ [r]) = set xs"
  by (induction xs) auto

lemma length_remove1_snoc: "r \<in> set xs \<Longrightarrow> length (remove1 r xs @ [r]) = length xs"
  by (induction xs) auto

text \<open>
  Claim C4, amended. On a press of button 1 (the left button) in the idle state the
  render list is hit-tested in reverse draw order, and the first piece whose rectangle
  contains the pointer, the \<open>topmost\<close> one, is selected: the grab offset becomes the pointer
  position minus the piece's top-left corner, the piece's flag \<open>moving\<close> is set and
  nothing else in the store changes, and the piece moves to the end of the render list,
  which keeps its other members in order, so that it is drawn last and is the first to be
  hit-tested from then on. When no piece contains the pointer, the state is unchanged and
  still idle. A press of any other button changes nothing.
\<close>

theorem pointer_down_idle:
  assumes "idle s"
  shows "(topmost s p r \<longrightarrow>
            dragging (handle_event s (MOUSEBUTTONDOWN 1 p)) r \<and>
            offset_x (handle_event s (MOUSEBUTTONDOWN 1 p)) = fst p - fst (topleft (rect (heap s r))) \<and>
            offset_y (handle_event s (MOUSEBUTTONDOWN 1 p)) = snd p - snd (topleft (rect (heap s r))) \<and>
            heap (handle_event s (MOUSEBUTTONDOWN 1 p)) = (heap s)(r := (heap s r)\<lparr>moving := True\<rparr>) \<and>
            pieces (handle_event s (MOUSEBUTTONDOWN 1 p)) = remove1 r (pieces s) @ [r] \<and>
            last (pieces (handle_event s (MOUSEBUTTONDOWN 1 p))) = r \<and>
            set (pieces (handle_event s (MOUSEBUTTONDOWN 1 p))) = set (pieces s) \<and>
            length (pieces (handle_event s (MOUSEBUTTONDOWN 1 p))) = length (pieces s) \<and>
            (\<forall>q. collidepoint (rect (heap (handle_event s (MOUSEBUTTONDOWN 1 p)) r)) q \<longrightarrow>
               hit_loop (heap (handle_event s (MOUSEBUTTONDOWN 1 p)))
                 (rev (pieces (handle_event s (MOUSEBUTTONDOWN 1 p)))) q = Some r)) \<and>
         ((\<forall>r \<in> set (pieces s). \<not> collidepoint (rect (heap s r)) p) \<longrightarrow>
            handle_event s (MOUSEBUTTONDOWN 1 p) = s \<and> idle (handle_event s (MOUSEBUTTONDOWN 1 p))) \<and>
         (b \<noteq> 1 \<longrightarrow> handle_event s (MOUSEBUTTONDOWN b p) = s)"
proof (intro conjI impI)
  assume t: "topmost s p r"
  then have h: "hit_loop (heap s) (rev (pieces s)) p = Some r" by (rule hit_loop_topmost)
  from t have m: "r \<in> set (pieces s)" by (auto simp: topmost_def)
  let ?s' = "handle_event s (MOUSEBUTTONDOWN 1 p)"
  have e: "?s' = s\<lparr>selected_piece := Some r,
             offset_x := fst p - rect_x (rect (heap s r)),
             offset_y := snd p - rect_y (rect (heap s r)),
             heap := (heap s)(r := (heap s r)\<lparr>moving := True\<rparr>),
             pieces := remove1 r (pieces s) @ [r]\<rparr>"
    using h by (simp add: on_mouse_button_down_hit)
  show "dragging ?s' r" unfolding e by (simp add: dragging_def)
  show "offset_x ?s' = fst p - fst (topleft (rect (heap s r)))" unfolding e by (simp add: topleft_def)
  show "offset_y ?s' = snd p - snd (topleft (rect (heap s r)))" unfolding e by (simp add: topleft_def)
  show "heap ?s' = (heap s)(r := (heap s r)\<lparr>moving := True\<rparr>)" unfolding e by simp
  show "pieces ?s' = remove1 r (pieces s) @ [r]" unfolding e by simp
  show "last (pieces ?s') = r" unfolding e by simp
  have "pieces ?s' = remove1 r (pieces s) @ [r]" unfolding e by simp
  then show "set (pieces ?s') = set (pieces s)" "length (pieces ?s') = length (pieces s)"
    using m by (simp_all only: set_remove1_snoc length_remove1_snoc)
  show "\<forall>q. collidepoint (rect (heap ?s' r)) q \<longrightarrow>
          hit_loop (heap ?s') (rev (pieces ?s')) q = Some r"
    unfolding e by simp
next
  assume "\<forall>r \<in> set (pieces s). \<not> collidepoint (rect (heap s r)) p"
  then show "handle_event s (MOUSEBUTTONDOWN 1 p) = s" by (simp add: on_mouse_button_down_miss)
  then show "idle (handle_event s (MOUSEBUTTONDOWN 1 p))" using assms by simp
next
  assume "b \<noteq> 1"
  then show "handle_event s (MOUSEBUTTONDOWN b p) = s" by simp
qed

lemma start_two_pieces:
  "start_session two_pieces =
     \<lparr>heap = (\<lambda>r. two_pieces ! r), pieces = [0, 1], selected_piece = None,
      offset_x = 0, offset_y = 0, running = True\<rparr>"
  by (simp add: start_session_def two_pieces_def upt_rec)

lemma two_pieces_nth:
  "two_pieces ! 0 = \<lparr>image_s = Surface 10 10, correct_pos = (50, 50),
       rect = \<lparr>rect_x = 11, rect_y = 48, rect_width = 10, rect_height = 10\<rparr>, moving = False\<rparr>"
  "two_pieces ! 1 = \<lparr>image_s = Surface 10 10, correct_pos = (60, 50),
       rect = \<lparr>rect_x = 85, rect_y = 122, rect_width = 10, rect_height = 10\<rparr>, moving = False\<rparr>"
  "two_pieces ! Suc 0 = \<lparr>image_s = Surface 10 10, correct_pos = (60, 50),
       rect = \<lparr>rect_x = 85, rect_y = 122, rect_width = 10, rect_height = 10\<rparr>, moving = False\<rparr>"
  by (simp_all add: two_pieces_def)

lemma initial_two_pieces: "initial (start_session two_pieces)"
  by (simp add: initial_def dragged_def start_two_pieces two_pieces_nth)

lemma topmost_two_pieces: "topmost (start_session two_pieces) (16, 53) 0"
  unfolding topmost_def
proof (intro exI [of _ 0] conjI allI impI)
  show "0 < length (pieces (start_session two_pieces))" by (simp add: start_two_pieces)
  show "pieces (start_session two_pieces) ! 0 = 0" by (simp add: start_two_pieces)
  show "collidepoint (rect (heap (start_session two_pieces) 0)) (16, 53)"
    by (simp add: start_two_pieces two_pieces_nth collidepoint_def)
  fix j assume "0 < j \<and> j < length (pieces (start_session two_pieces))"
  then have "j = 1" by (simp add: start_two_pieces)
  then show "\<not> collidepoint (rect (heap (start_session two_pieces)
      (pieces (start_session two_pieces) ! j))) (16, 53)"
    by (simp add: start_two_pieces two_pieces_nth collidepoint_def)
qed

text \<open>
  Claim C4 speaks of every press. The branch of \<^verbatim>\<open>main\<close> is guarded by
  \<^verbatim>\<open>event.button == 1\<close>: a press of button 3 on a piece, in the idle state, selects
  nothing and changes nothing.
\<close>

theorem pointer_down_other_button_counterexample:
  "idle (start_session two_pieces) \<and>
   collidepoint (rect (heap (start_session two_pieces) 0)) (16, 53) \<and>
   selected_piece (handle_event (start_session two_pieces) (MOUSEBUTTONDOWN 3 (16, 53))) = None \<and>
   \<not> moving (heap (handle_event (start_session two_pieces) (MOUSEBUTTONDOWN 3 (16, 53))) 0) \<and>
   pieces (handle_event (start_session two_pieces) (MOUSEBUTTONDOWN 3 (16, 53))) = [0, 1]"
  by (simp add: idle_def start_two_pieces two_pieces_nth collidepoint_def)

theorem pointer_down_idle_witness:
  "idle (start_session two_pieces) \<and> topmost (start_session two_pieces) (16, 53) 0 \<and>
   dragging (handle_event (start_session two_pieces) (MOUSEBUTTONDOWN 1 (16, 53))) 0 \<and>
   offset_x (handle_event (start_session two_pieces) (MOUSEBUTTONDOWN 1 (16, 53))) = 5 \<and>
   offset_y (handle_event (start_session two_pieces) (MOUSEBUTTONDOWN 1 (16, 53))) = 5 \<and>
   pieces (handle_event (start_session two_pieces) (MOUSEBUTTONDOWN 1 (16, 53))) = [1, 0] \<and>
   handle_event (start_session two_pieces) (MOUSEBUTTONDOWN 1 (500, 500)) = start_session two_pieces \<and>
   handle_event (start_session two_pieces) (MOUSEBUTTONDOWN 3 (16, 53)) = start_session two_pieces"
proof -
  let ?s = "start_session two_pieces"
  have i: "idle ?s" by (simp add: idle_def start_two_pieces)
  have miss: "\<forall>r \<in> set (pieces ?s). \<not> collidepoint (rect (heap ?s r)) (500, 500)"
    by (simp add: start_two_pieces two_pieces_nth collidepoint_def)
  have b: "(3::int) \<noteq> 1" by simp
  note t = pointer_down_idle [OF i, where p = "(16, 53)" and r = 0 and b = 3]
  note u = pointer_down_idle [OF i, where p = "(500, 500)" and r = 0 and b = 3]
  from t topmost_two_pieces
  have "dragging (handle_event ?s (MOUSEBUTTONDOWN 1 (16, 53))) 0"
    "offset_x (handle_event ?s (MOUSEBUTTONDOWN 1 (16, 53))) = 16 - fst (topleft (rect (heap ?s 0)))"
    "offset_y (handle_event ?s (MOUSEBUTTONDOWN 1 (16, 53))) = 53 - snd (topleft (rect (heap ?s 0)))"
    "pieces (handle_event ?s (MOUSEBUTTONDOWN 1 (16, 53))) = remove1 0 (pieces ?s) @ [0]"
    by simp_all
  moreover have "fst (topleft (rect (heap ?s 0))) = 11" "snd (topleft (rect (heap ?s 0))) = 48"
    "remove1 0 (pieces ?s) @ [0] = [1, 0]"
    by (simp_all add: start_two_pieces two_pieces_nth topleft_def)
  moreover from u miss have "handle_event ?s (MOUSEBUTTONDOWN 1 (500, 500)) = ?s" by blast
  moreover from t b have "handle_event ?s (MOUSEBUTTONDOWN 3 (16, 53)) = ?s" by blast
  ultimately show ?thesis using i topmost_two_pieces by simp
qed

section \<open>Moving the selected piece\<close>

lemma snap_to_place_moving: "moving (snd (snap_to_place p)) = moving p"
  by (simp add: snap_to_place_def Let_def)

lemma handle_event_selected_inv:
  assumes "selected_inv s"
  shows "selected_inv (handle_event s ev)"
proof (cases ev)
  case QUIT
  with assms show ?thesis by (simp add: selected_inv_def split: option.splits)
next
  case (MOUSEBUTTONDOWN b p)
  with assms show ?thesis
    by (simp add: selected_inv_def on_mouse_button_down_def split: option.splits)
next
  case (MOUSEMOTION p)
  with assms show ?thesis
    by (auto simp: selected_inv_def on_mouse_motion_def Let_def split: option.splits)
next
  case (MOUSEBUTTONUP b p)
  with assms show ?thesis
    by (simp add: selected_inv_def on_mouse_button_up_def split: option.splits)
next
  case OTHER_EVENT
  with assms show ?thesis by simp
qed

lemma run_events_selected_inv:
  "selected_inv s \<Longrightarrow> selected_inv (run_events s evs)"
  unfolding run_events_def
  by (induction evs arbitrary: s) (simp_all add: handle_event_selected_inv)

lemma initial_selected_inv: "initial s \<Longrightarrow> selected_inv s"
  by (simp add: initial_def selected_inv_def)

text \<open>
  Claim C5. In every state \<open>s\<close> that the controller reaches from an initial state with a
  piece \<open>r\<close> selected, a motion to \<open>p\<close> sets the top-left corner of \<open>r\<close> to \<open>p\<close> minus the
  captured grab offset, so the grab point stays under the pointer; nothing else changes,
  and \<open>r\<close> stays selected and dragged. The witness is the scenario of the specification:
  a piece grabbed at offset (5, 5), the pointer moved to (100, 100), the top-left corner
  at (95, 95) afterwards.
\<close>

theorem pointer_move_dragging:
  assumes "initial s0" and "s = run_events s0 evs" and "dragging s r"
  shows "topleft (rect (heap (handle_event s (MOUSEMOTION p)) r)) =
           (fst p - offset_x s, snd p - offset_y s) \<and>
         (fst (topleft (rect (heap (handle_event s (MOUSEMOTION p)) r))) + offset_x s,
          snd (topleft (rect (heap (handle_event s (MOUSEMOTION p)) r))) + offset_y s) = p \<and>
         handle_event s (MOUSEMOTION p) =
           s\<lparr>heap := (heap s)(r := (heap s r)\<lparr>rect :=
                set_topleft (rect (heap s r)) (fst p - offset_x s, snd p - offset_y s)\<rparr>)\<rparr> \<and>
         dragging (handle_event s (MOUSEMOTION p)) r \<and>
         moving (heap (handle_event s (MOUSEMOTION p)) r)"
proof -
  from assms(1,2) have "selected_inv s"
    by (simp add: run_events_selected_inv initial_selected_inv)
  with assms(3) have m: "moving (heap s r)" and sel: "selected_piece s = Some r"
    by (simp_all add: selected_inv_def dragging_def)
  have e: "handle_event s (MOUSEMOTION p) =
           s\<lparr>heap := (heap s)(r := (heap s r)\<lparr>rect :=
                set_topleft (rect (heap s r)) (fst p - offset_x s, snd p - offset_y s)\<rparr>)\<rparr>"
    using m sel by (simp add: on_mouse_motion_def)
  show ?thesis
    unfolding e using m sel by (simp add: topleft_set_topleft dragging_def)
qed

theorem pointer_move_dragging_witness:
  "initial (start_session two_pieces) \<and>
   dragging (run_events (start_session two_pieces) [MOUSEBUTTONDOWN 1 (16, 53)]) 0 \<and>
   offset_x (run_events (start_session two_pieces) [MOUSEBUTTONDOWN 1 (16, 53)]) = 5 \<and>
   offset_y (run_events (start_session two_pieces) [MOUSEBUTTONDOWN 1 (16, 53)]) = 5 \<and>
   topleft (rect (heap (handle_event (run_events (start_session two_pieces) [MOUSEBUTTONDOWN 1 (16, 53)])
      (MOUSEMOTION (100, 100))) 0)) = (95, 95)"
proof -
  let ?s = "run_events (start_session two_pieces) [MOUSEBUTTONDOWN 1 (16, 53)]"
  have d: "dragging ?s 0" "offset_x ?s = 5" "offset_y ?s = 5"
    by (simp_all add: run_events_def on_mouse_button_down_def start_two_pieces two_pieces_nth
        collidepoint_def dragging_def)
  from pointer_move_dragging [OF initial_two_pieces refl d(1), where p = "(100, 100)"]
  have "topleft (rect (heap (handle_event ?s (MOUSEMOTION (100, 100))) 0)) =
          (fst (100::int, 100::int) - offset_x ?s, snd (100::int, 100::int) - offset_y ?s)"
    by (rule conjunct1)
  then have "topleft (rect (heap (handle_event ?s (MOUSEMOTION (100, 100))) 0)) = (95, 95)"
    by (simp only: d fst_conv snd_conv) simp
  with d initial_two_pieces show ?thesis by blast
qed

section \<open>Releasing the selected piece\<close>

lemma snap_to_place_flag:
  "fst (snap_to_place (p\<lparr>moving := m\<rparr>)) = fst (snap_to_place p) \<and>
   rect (snd (snap_to_place (p\<lparr>moving := m\<rparr>))) = rect (snd (snap_to_place p)) \<and>
   correct_pos (snd (snap_to_place (p\<lparr>moving := m\<rparr>))) = correct_pos p \<and>
   image_s (snd (snap_to_place (p\<lparr>moving := m\<rparr>))) = image_s p \<and>
   moving (snd (snap_to_place (p\<lparr>moving := m\<rparr>))) = m"
  by (simp add: snap_to_place_def Let_def)

text \<open>
  Claim C6, amended. On a release of button 1 (the left button) with the piece \<open>r\<close>
  selected, the controller clears the flag \<open>moving\<close> of \<open>r\<close>, calls \<^verbatim>\<open>snap_to_place\<close> on
  it, clears the selection and is idle afterwards, whether or not the snap succeeded: a
  piece that snaps stands at its target position, a piece that does not keeps the
  rectangle it was dropped with. A release of any other button changes nothing.
\<close>

theorem pointer_up_dragging:
  assumes "dragging s r"
  shows "idle (handle_event s (MOUSEBUTTONUP 1 p)) \<and>
         \<not> moving (heap (handle_event s (MOUSEBUTTONUP 1 p)) r) \<and>
         heap (handle_event s (MOUSEBUTTONUP 1 p)) =
           (heap s)(r := snd (snap_to_place ((heap s r)\<lparr>moving := False\<rparr>))) \<and>
         pieces (handle_event s (MOUSEBUTTONUP 1 p)) = pieces s \<and>
         (fst (snap_to_place (heap s r)) \<longrightarrow>
            topleft (rect (heap (handle_event s (MOUSEBUTTONUP 1 p)) r)) = correct_pos (heap s r)) \<and>
         (\<not> fst (snap_to_place (heap s r)) \<longrightarrow>
            rect (heap (handle_event s (MOUSEBUTTONUP 1 p)) r) = rect (heap s r)) \<and>
         (b \<noteq> 1 \<longrightarrow> handle_event s (MOUSEBUTTONUP b p) = s)"
proof -
  from assms have sel: "selected_piece s = Some r" by (simp add: dragging_def)
  have e: "handle_event s (MOUSEBUTTONUP 1 p) =
             s\<lparr>heap := (heap s)(r := snd (snap_to_place ((heap s r)\<lparr>moving := False\<rparr>))),
               selected_piece := None\<rparr>"
    using sel by (simp add: on_mouse_button_up_def)
  have r: "rect (snd (snap_to_place ((heap s r)\<lparr>moving := False\<rparr>))) = rect (snd (snap_to_place (heap s r)))"
    by (simp add: snap_to_place_flag)
  have "fst (snap_to_place (heap s r)) \<longrightarrow>
          topleft (rect (snd (snap_to_place (heap s r)))) = correct_pos (heap s r)"
    by (simp add: snap_to_place_def Let_def topleft_set_topleft)
  moreover have "\<not> fst (snap_to_place (heap s r)) \<longrightarrow>
          rect (snd (snap_to_place (heap s r))) = rect (heap s r)"
    by (simp add: snap_to_place_def Let_def)
  ultimately show ?thesis
    unfolding e by (simp add: idle_def r snap_to_place_flag)
qed

text \<open>
  Claim C6 speaks of every release. The branch of \<^verbatim>\<open>main\<close> is guarded by
  \<^verbatim>\<open>event.button == 1\<close>: after a release of button 3 the piece is still selected and still
  has its flag set.
\<close>

theorem pointer_up_other_button_counterexample:
  "dragging (run_events (start_session two_pieces) [MOUSEBUTTONDOWN 1 (16, 53)]) 0 \<and>
   dragging (handle_event (run_events (start_session two_pieces) [MOUSEBUTTONDOWN 1 (16, 53)])
      (MOUSEBUTTONUP 3 (16, 53))) 0 \<and>
   moving (heap (handle_event (run_events (start_session two_pieces) [MOUSEBUTTONDOWN 1 (16, 53)])
      (MOUSEBUTTONUP 3 (16, 53))) 0)"
  by (simp add: run_events_def on_mouse_button_down_def start_two_pieces two_pieces_nth
      collidepoint_def dragging_def)

lemma drag_then_move_near:
  "dragging (run_events (start_session two_pieces) [MOUSEBUTTONDOWN 1 (16, 53), MOUSEMOTION (65, 60)]) 0 \<and>
   heap (run_events (start_session two_pieces) [MOUSEBUTTONDOWN 1 (16, 53), MOUSEMOTION (65, 60)]) 0 =
     \<lparr>image_s = Surface 10 10, correct_pos = (50, 50),
       rect = \<lparr>rect_x = 60, rect_y = 55, rect_width = 10, rect_height = 10\<rparr>, moving = True\<rparr>"
  by (simp add: run_events_def on_mouse_button_down_def on_mouse_motion_def start_two_pieces
      two_pieces_nth collidepoint_def dragging_def set_topleft_def)

lemma drag_then_move_far:
  "dragging (run_events (start_session two_pieces) [MOUSEBUTTONDOWN 1 (16, 53), MOUSEMOTION (100, 100)]) 0 \<and>
   heap (run_events (start_session two_pieces) [MOUSEBUTTONDOWN 1 (16, 53), MOUSEMOTION (100, 100)]) 0 =
     \<lparr>image_s = Surface 10 10, correct_pos = (50, 50),
       rect = \<lparr>rect_x = 95, rect_y = 95, rect_width = 10, rect_height = 10\<rparr>, moving = True\<rparr>"
  by (simp add: run_events_def on_mouse_button_down_def on_mouse_motion_def start_two_pieces
      two_pieces_nth collidepoint_def dragging_def set_topleft_def)

theorem pointer_up_dragging_witness:
  "dragging (run_events (start_session two_pieces) [MOUSEBUTTONDOWN 1 (16, 53), MOUSEMOTION (65, 60)]) 0 \<and>
   idle (handle_event
     (run_events (start_session two_pieces) [MOUSEBUTTONDOWN 1 (16, 53), MOUSEMOTION (65, 60)])
     (MOUSEBUTTONUP 1 (65, 60))) \<and>
   topleft (rect (heap (handle_event
     (run_events (start_session two_pieces) [MOUSEBUTTONDOWN 1 (16, 53), MOUSEMOTION (65, 60)])
     (MOUSEBUTTONUP 1 (65, 60))) 0)) = (50, 50) \<and>
   dragging (run_events (start_session two_pieces) [MOUSEBUTTONDOWN 1 (16, 53), MOUSEMOTION (100, 100)]) 0 \<and>
   idle (handle_event
     (run_events (start_session two_pieces) [MOUSEBUTTONDOWN 1 (16, 53), MOUSEMOTION (100, 100)])
     (MOUSEBUTTONUP 1 (100, 100))) \<and>
   topleft (rect (heap (handle_event
     (run_events (start_session two_pieces) [MOUSEBUTTONDOWN 1 (16, 53), MOUSEMOTION (100, 100)])
     (MOUSEBUTTONUP 1 (100, 100))) 0)) = (95, 95) \<and>
   handle_event
     (run_events (start_session two_pieces) [MOUSEBUTTONDOWN 1 (16, 53), MOUSEMOTION (65, 60)])
     (MOUSEBUTTONUP 3 (65, 60)) =
   run_events (start_session two_pieces) [MOUSEBUTTONDOWN 1 (16, 53), MOUSEMOTION (65, 60)]"
proof -
  let ?near = "run_events (start_session two_pieces) [MOUSEBUTTONDOWN 1 (16, 53), MOUSEMOTION (65, 60)]"
  let ?far = "run_events (start_session two_pieces) [MOUSEBUTTONDOWN 1 (16, 53), MOUSEMOTION (100, 100)]"
  from drag_then_move_near have n: "dragging ?near 0"
    "heap ?near 0 = \<lparr>image_s = Surface 10 10, correct_pos = (50, 50),
       rect = \<lparr>rect_x = 60, rect_y = 55, rect_width = 10, rect_height = 10\<rparr>, moving = True\<rparr>"
    by blast+
  from drag_then_move_far have f: "dragging ?far 0"
    "heap ?far 0 = \<lparr>image_s = Surface 10 10, correct_pos = (50, 50),
       rect = \<lparr>rect_x = 95, rect_y = 95, rect_width = 10, rect_height = 10\<rparr>, moving = True\<rparr>"
    by blast+
  have sn: "fst (snap_to_place (heap ?near 0))" "correct_pos (heap ?near 0) = (50, 50)"
    unfolding n(2) by (simp_all add: snap_to_place_def SNAP_DISTANCE_def topleft_def)
  have sf: "\<not> fst (snap_to_place (heap ?far 0))" "topleft (rect (heap ?far 0)) = (95, 95)"
    unfolding f(2) by (simp_all add: snap_to_place_def SNAP_DISTANCE_def topleft_def)
  have b: "(3::int) \<noteq> 1" by simp
  note tn = pointer_up_dragging [OF n(1), where p = "(65, 60)" and b = 3]
  note tf = pointer_up_dragging [OF f(1), where p = "(100, 100)" and b = 3]
  from tn sn have "idle (handle_event ?near (MOUSEBUTTONUP 1 (65, 60)))"
    "topleft (rect (heap (handle_event ?near (MOUSEBUTTONUP 1 (65, 60))) 0)) = (50, 50)"
    by metis+
  moreover from tf sf have "idle (handle_event ?far (MOUSEBUTTONUP 1 (100, 100)))"
    "topleft (rect (heap (handle_event ?far (MOUSEBUTTONUP 1 (100, 100))) 0)) = (95, 95)"
    by metis+
  moreover from tn b have "handle_event ?near (MOUSEBUTTONUP 3 (65, 60)) = ?near" by blast
  ultimately show ?thesis using n(1) f(1) by blast
qed

section \<open>At most one piece is dragged\<close>













text \<open>
  The condition on the sequence is needed. The branch for a press does not look at the
  selection, so a list of events in which a second press of button 1 comes at another
  place than the first, with no motion between them, leaves two pieces with the flag
  set. No pointer delivers such a list: it is not a \<open>pointer_run\<close>.
\<close>

lemma double_press_not_a_pointer_run:
  "\<not> pointer_run p0 [MOUSEBUTTONDOWN 1 (16, 53), MOUSEBUTTONDOWN 1 (90, 125)] \<and>
   dragged (run_events (start_session two_pieces)
     [MOUSEBUTTONDOWN 1 (16, 53), MOUSEBUTTONDOWN 1 (90, 125)]) = [0, 1]"
  by (auto simp: pointer_step_def pointer_next_def run_events_def on_mouse_button_down_def
      start_two_pieces two_pieces_nth collidepoint_def dragged_def)

text \<open>The example session is one the program can start with.\<close>

lemma scattered_two_pieces:
  "create_puzzle_pieces (Surface 20 10) 1 2 (50, 50) =
     Inr [\<lparr>image_s = Surface 10 10, correct_pos = (50, 50),
            rect = \<lparr>rect_x = 50, rect_y = 50, rect_width = 10, rect_height = 10\<rparr>, moving = False\<rparr>,
          \<lparr>image_s = Surface 10 10, correct_pos = (60, 50),
            rect = \<lparr>rect_x = 60, rect_y = 50, rect_width = 10, rect_height = 10\<rparr>, moving = False\<rparr>] \<and>
   shuffle_pieces example_draws
     [\<lparr>image_s = Surface 10 10, correct_pos = (50, 50),
            rect = \<lparr>rect_x = 50, rect_y = 50, rect_width = 10, rect_height = 10\<rparr>, moving = False\<rparr>,
          \<lparr>image_s = Surface 10 10, correct_pos = (60, 50),
            rect = \<lparr>rect_x = 60, rect_y = 50, rect_width = 10, rect_height = 10\<rparr>, moving = False\<rparr>]
     screen_rect_main = Inr two_pieces"
  by (simp add: create_puzzle_pieces_def get_size_def range_py_def upto_rec1 subsurface_def
      copy_surface_def PuzzlePiece_init_def get_rect_def c_int_def Let_def shuffle_2 two_pieces_def)

end
